theory Spec2Isabelle
  imports Complex_Main
begin

section \<open>Data model of \<^verbatim>\<open>snake_game.py\<close>\<close>

text \<open>
  Python integers are unbounded, so every coordinate, counter and score is an \<open>int\<close>.
  Exceptions are values of \<open>error\<close>; a function that can raise returns \<open>error + 'a\<close>.
  A loop that may run forever returns an \<open>option\<close>, \<open>None\<close> standing for "never returns".
\<close>

datatype error = IndexError | ValueError | KeyError | SystemExit

datatype FoodType = REGULAR | BONUS | SUPER

text \<open>\<^verbatim>\<open>Position\<close>: a dataclass with two integer fields, compared field by field.\<close>

record Position =
  pos_x :: int
  pos_y :: int

type_synonym color = "nat \<times> nat \<times> nat"

definition WHITE :: color where "WHITE = (255, 255, 255)"
definition BLACK :: color where "BLACK = (0, 0, 0)"
definition GREEN :: color where "GREEN = (0, 255, 0)"
definition PURPLE :: color where "PURPLE = (128, 0, 128)"
definition ORANGE :: color where "ORANGE = (255, 165, 0)"
definition ENEMY_COLOR :: color where "ENEMY_COLOR = (255, 0, 128)"

text \<open>
  \<^verbatim>\<open>Enemy\<close>: every enemy keeps its own copy of the grid size and of the wall list it was
  built with.
\<close>

record Enemy =
  position :: Position
  e_color :: color
  e_grid_width :: int
  e_grid_height :: int
  e_walls :: "(int \<times> int) list"
  move_cooldown :: int
  move_delay :: int

text \<open>
  \<^verbatim>\<open>Snake\<close>: the body is head first; the direction is one of the Python strings
  \<^verbatim>\<open>'UP'\<close>, \<^verbatim>\<open>'DOWN'\<close>, \<^verbatim>\<open>'LEFT'\<close>, \<^verbatim>\<open>'RIGHT'\<close>.
\<close>

record Snake =
  body :: "Position list"
  direction :: string
  growth_pending :: bool
  head_color :: color
  body_color :: color

text \<open>The food dictionary has a fixed set of keys, one field each.\<close>

record Food =
  f_position :: Position
  f_type :: FoodType
  f_color :: color
  f_value :: int
  spawn_time :: int
  flash_state :: bool

record Game =
  width :: int
  height :: int
  cell_size :: int
  grid_width :: int
  grid_height :: int
  score :: int
  high_score :: int
  difficulty :: string
  map_style :: string
  walls :: "(int \<times> int) list"
  enemies :: "Enemy list"
  enemy_count :: int
  spawn_enemies :: bool
  snake :: Snake
  food :: Food
  game_over :: bool
  last_update_time :: int
  food_flash_interval :: int

text \<open>
  What one call of \<^verbatim>\<open>update\<close> or \<^verbatim>\<open>generate_food\<close> reads from outside the game:
  the raw random numbers behind the successive pairs of \<^verbatim>\<open>random.randint\<close> calls (attempt
  \<open>i\<close> of the placement loop uses \<open>rand_cells i\<close>), the value of \<^verbatim>\<open>random.random()\<close>, and
  the two readings of \<^verbatim>\<open>pygame.time.get_ticks()\<close>.
\<close>

record Env =
  rand_cells :: "nat \<Rightarrow> int \<times> int"
  rand_roll :: real
  ticks_spawn :: int
  ticks_now :: int

text \<open>
  \<^verbatim>\<open>random.randint(a, b)\<close>: raises \<^verbatim>\<open>ValueError\<close> on an empty range, otherwise returns
  a value of \<open>[a, b]\<close>; the raw random number \<open>r\<close> selects which one.
\<close>

definition randint :: "int \<Rightarrow> int \<Rightarrow> int \<Rightarrow> error + int" where
  "randint a b r = (if b < a then Inl ValueError else Inr (a + r mod (b - a + 1)))"

section \<open>Enemy\<close>

definition possible_moves :: "Enemy \<Rightarrow> Position list" where
  "possible_moves e =
     [\<lparr>pos_x = pos_x (position e), pos_y = pos_y (position e) - 1\<rparr>,
      \<lparr>pos_x = pos_x (position e), pos_y = pos_y (position e) + 1\<rparr>,
      \<lparr>pos_x = pos_x (position e) - 1, pos_y = pos_y (position e)\<rparr>,
      \<lparr>pos_x = pos_x (position e) + 1, pos_y = pos_y (position e)\<rparr>]"

text \<open>The three \<^verbatim>\<open>continue\<close> tests of \<^verbatim>\<open>get_valid_moves\<close>, in the source's order.\<close>

definition move_blocked :: "Enemy \<Rightarrow> Position list \<Rightarrow> Position \<Rightarrow> bool" where
  "move_blocked e snake_body m =
     (if pos_x m < 0 \<or> pos_x m \<ge> e_grid_width e \<or> pos_y m < 0 \<or> pos_y m \<ge> e_grid_height e
      then True
      else if list_ex (\<lambda>w. fst w = pos_x m \<and> snd w = pos_y m) (e_walls e) then True
      else if list_ex (\<lambda>b. pos_x b = pos_x m \<and> pos_y b = pos_y m) (drop 1 snake_body) then True
      else False)"

definition get_valid_moves :: "Enemy \<Rightarrow> Position list \<Rightarrow> Position list" where
  "get_valid_moves e snake_body = filter (\<lambda>m. \<not> move_blocked e snake_body m) (possible_moves e)"

definition move_score :: "Enemy \<Rightarrow> Position \<Rightarrow> Position \<Rightarrow> int" where
  "move_score e snake_head m =
     (let dx = pos_x snake_head - pos_x (position e);
          dy = pos_y snake_head - pos_y (position e);
          horizontal_priority = (\<bar>dx\<bar> > \<bar>dy\<bar>);
          move_dx = pos_x m - pos_x (position e);
          move_dy = pos_y m - pos_y (position e);
          helps_horizontal = ((dx > 0 \<and> move_dx > 0) \<or> (dx < 0 \<and> move_dx < 0));
          helps_vertical = ((dy > 0 \<and> move_dy > 0) \<or> (dy < 0 \<and> move_dy < 0))
      in if horizontal_priority
         then (if helps_horizontal then - 2 else 2) + (if helps_vertical then - 1 else 1)
         else (if helps_vertical then - 2 else 2) + (if helps_horizontal then - 1 else 1))"

text \<open>
  Python's \<^verbatim>\<open>min(xs, key=f)\<close> on a non-empty list: a later element replaces the best one
  so far only when its key is strictly smaller, so the first minimal element is returned.
\<close>

fun min_by :: "('a \<Rightarrow> int) \<Rightarrow> 'a \<Rightarrow> 'a list \<Rightarrow> 'a" where
  "min_by key best [] = best"
| "min_by key best (x # xs) = (if key x < key best then min_by key x xs else min_by key best xs)"

definition move_towards_snake :: "Enemy \<Rightarrow> Position \<Rightarrow> Position list \<Rightarrow> Enemy" where
  "move_towards_snake e snake_head snake_body =
     (if move_cooldown e > 0 then e\<lparr>move_cooldown := move_cooldown e - 1\<rparr>
      else case get_valid_moves e snake_body of
             [] \<Rightarrow> e\<lparr>move_cooldown := move_delay e\<rparr>
           | m # ms \<Rightarrow> e\<lparr>position := min_by (move_score e snake_head) m ms,
                        move_cooldown := move_delay e\<rparr>)"

text \<open>\<^verbatim>\<open>Enemy.__init__\<close>.\<close>

definition Enemy_init :: "Position \<Rightarrow> int \<Rightarrow> int \<Rightarrow> (int \<times> int) list \<Rightarrow> Enemy" where
  "Enemy_init pos gw gh ws =
     \<lparr>position = pos, e_color = ENEMY_COLOR, e_grid_width = gw, e_grid_height = gh,
      e_walls = ws, move_cooldown = 0, move_delay = 2\<rparr>"

section \<open>Snake\<close>

definition Snake_init :: "Position \<Rightarrow> Snake" where
  "Snake_init start_pos =
     \<lparr>body = [start_pos, \<lparr>pos_x = pos_x start_pos - 1, pos_y = pos_y start_pos\<rparr>],
      direction = ''RIGHT'', growth_pending = False, head_color = WHITE, body_color = BLACK\<rparr>"

text \<open>\<^verbatim>\<open>self.body[0]\<close> raises \<^verbatim>\<open>IndexError\<close> on an empty body.\<close>

definition new_head_of :: "string \<Rightarrow> Position \<Rightarrow> Position" where
  "new_head_of d head =
     (if d = ''UP'' then head\<lparr>pos_y := pos_y head - 1\<rparr>
      else if d = ''DOWN'' then head\<lparr>pos_y := pos_y head + 1\<rparr>
      else if d = ''LEFT'' then head\<lparr>pos_x := pos_x head - 1\<rparr>
      else if d = ''RIGHT'' then head\<lparr>pos_x := pos_x head + 1\<rparr>
      else head)"

definition move :: "Snake \<Rightarrow> error + Snake" where
  "move s =
     (case body s of
        [] \<Rightarrow> Inl IndexError
      | head # rest \<Rightarrow>
          (let inserted = new_head_of (direction s) head # body s
           in if \<not> growth_pending s then Inr (s\<lparr>body := butlast inserted\<rparr>)
              else Inr (s\<lparr>body := inserted, growth_pending := False\<rparr>)))"

definition grow :: "Snake \<Rightarrow> Snake" where
  "grow s = s\<lparr>growth_pending := True\<rparr>"

section \<open>Game\<close>

text \<open>\<^verbatim>\<open>range(a, b)\<close> and \<^verbatim>\<open>range(a, b, s)\<close> for a positive step.\<close>

definition range2 :: "int \<Rightarrow> int \<Rightarrow> int list" where
  "range2 a b = [a..b - 1]"

definition range3 :: "int \<Rightarrow> int \<Rightarrow> int \<Rightarrow> int list" where
  "range3 a b s = map (\<lambda>k. a + s * k) [0..(b - a - 1) div s]"

definition MAZE :: "(int \<times> int) list" where
  "MAZE =
     map (\<lambda>i. (i, 5)) (range2 5 35) @
     map (\<lambda>i. (i, 25)) (range2 5 35) @
     map (\<lambda>i. (5, i)) (range2 5 26) @
     map (\<lambda>i. (35, i)) (range2 5 26) @
     map (\<lambda>i. (10, i)) (range2 5 20) @
     map (\<lambda>i. (15, i)) (range2 10 26) @
     map (\<lambda>i. (20, i)) (range2 5 20) @
     map (\<lambda>i. (25, i)) (range2 10 26) @
     map (\<lambda>i. (30, i)) (range2 5 20) @
     map (\<lambda>i. (i, 10)) (range3 5 35 5) @
     map (\<lambda>i. (i, 15)) (range3 5 35 5) @
     map (\<lambda>i. (i, 20)) (range3 5 35 5)"

definition MAP_LAYOUTS :: "string \<rightharpoonup> (int \<times> int) list" where
  "MAP_LAYOUTS = [''BASIC'' \<mapsto> [], ''MAZE'' \<mapsto> MAZE]"

subsection \<open>Food generation\<close>

definition new_food :: "Position \<Rightarrow> real \<Rightarrow> int \<Rightarrow> Food" where
  "new_food food_pos food_type_roll t =
     (if food_type_roll < 0.05
      then \<lparr>f_position = food_pos, f_type = SUPER, f_color = PURPLE, f_value = 30,
            spawn_time = t, flash_state = False\<rparr>
      else if food_type_roll < 0.20
      then \<lparr>f_position = food_pos, f_type = BONUS, f_color = ORANGE, f_value = 20,
            spawn_time = t, flash_state = False\<rparr>
      else \<lparr>f_position = food_pos, f_type = REGULAR, f_color = GREEN, f_value = 10,
            spawn_time = t, flash_state = False\<rparr>)"

text \<open>The test of \<^verbatim>\<open>generate_food\<close>: the cell is on the snake, on a wall or on an enemy.\<close>

definition cell_taken :: "Position list \<Rightarrow> (int \<times> int) list \<Rightarrow> Enemy list \<Rightarrow> Position \<Rightarrow> bool" where
  "cell_taken snake_body ws es p =
     (\<not> (\<not> list_ex (\<lambda>b. pos_x b = pos_x p \<and> pos_y b = pos_y p) snake_body \<and>
         \<not> list_ex (\<lambda>w. fst w = pos_x p \<and> snd w = pos_y p) ws \<and>
         \<not> list_ex (\<lambda>e. pos_x (position e) = pos_x p \<and> pos_y (position e) = pos_y p) es))"

text \<open>
  The \<^verbatim>\<open>while True\<close> loop of \<^verbatim>\<open>generate_food\<close>, from attempt \<open>i\<close> on. It reads the grid
  size, the snake body, the walls and the enemies of the game; it returns \<open>None\<close> when no
  attempt ever finds a free cell.
\<close>

partial_function (option) generate_food_loop ::
  "int \<Rightarrow> int \<Rightarrow> Position list \<Rightarrow> (int \<times> int) list \<Rightarrow> Enemy list \<Rightarrow> Env \<Rightarrow> nat \<Rightarrow> (error + Food) option"
where
  "generate_food_loop gw gh snake_body ws es env i =
     (case randint 0 (gw - 1) (fst (rand_cells env i)) of
        Inl err \<Rightarrow> Some (Inl err)
      | Inr fx \<Rightarrow>
          (case randint 0 (gh - 1) (snd (rand_cells env i)) of
             Inl err \<Rightarrow> Some (Inl err)
           | Inr fy \<Rightarrow>
               (if \<not> cell_taken snake_body ws es \<lparr>pos_x = fx, pos_y = fy\<rparr>
                then Some (Inr (new_food \<lparr>pos_x = fx, pos_y = fy\<rparr> (rand_roll env) (ticks_spawn env)))
                else generate_food_loop gw gh snake_body ws es env (Suc i))))"

definition generate_food :: "Game \<Rightarrow> Env \<Rightarrow> (error + Food) option" where
  "generate_food g env =
     generate_food_loop (grid_width g) (grid_height g) (body (snake g)) (walls g) (enemies g) env 0"

subsection \<open>Collision test\<close>

definition check_collision :: "Game \<Rightarrow> error + bool" where
  "check_collision g =
     (case body (snake g) of
        [] \<Rightarrow> Inl IndexError
      | head # rest \<Rightarrow>
          Inr (if pos_x head < 0 \<or> pos_x head \<ge> grid_width g \<or> pos_y head < 0 \<or> pos_y head \<ge> grid_height g
               then True
               else if int (length (body (snake g))) > 1 \<and>
                       list_ex (\<lambda>b. pos_x b = pos_x head \<and> pos_y b = pos_y head) (drop 1 (body (snake g)))
               then True
               else if list_ex (\<lambda>w. fst w = pos_x head \<and> snd w = pos_y head) (walls g) then True
               else False))"

subsection \<open>Keyboard events\<close>

datatype key = K_UP | K_DOWN | K_LEFT | K_RIGHT | K_SPACE | K_ESCAPE | K_other

datatype event = QUIT | KEYDOWN key | Other_event

definition handle_keydown :: "key \<Rightarrow> Snake \<Rightarrow> Snake" where
  "handle_keydown k s =
     (if k = K_UP \<and> direction s \<noteq> ''DOWN'' then s\<lparr>direction := ''UP''\<rparr>
      else if k = K_DOWN \<and> direction s \<noteq> ''UP'' then s\<lparr>direction := ''DOWN''\<rparr>
      else if k = K_LEFT \<and> direction s \<noteq> ''RIGHT'' then s\<lparr>direction := ''LEFT''\<rparr>
      else if k = K_RIGHT \<and> direction s \<noteq> ''LEFT'' then s\<lparr>direction := ''RIGHT''\<rparr>
      else s)"

text \<open>\<^verbatim>\<open>QUIT\<close> ends the process through \<^verbatim>\<open>sys.exit()\<close>, which raises \<^verbatim>\<open>SystemExit\<close>.\<close>

fun handle_events :: "event list \<Rightarrow> Game \<Rightarrow> error + Game" where
  "handle_events [] g = Inr g"
| "handle_events (QUIT # evs) g = Inl SystemExit"
| "handle_events (KEYDOWN k # evs) g = handle_events evs (g\<lparr>snake := handle_keydown k (snake g)\<rparr>)"
| "handle_events (Other_event # evs) g = handle_events evs g"

subsection \<open>One tick\<close>

text \<open>
  The block that ends the game in \<^verbatim>\<open>update\<close> (it occurs twice there). Writing the high-score
  file is outside the model; the field is what the game keeps.
\<close>

definition set_game_over :: "Game \<Rightarrow> Game" where
  "set_game_over g =
     (let g1 = g\<lparr>game_over := True\<rparr>
      in if score g1 > high_score g1 then g1\<lparr>high_score := score g1\<rparr> else g1)"

text \<open>Lines 301 to 312: the food pickup.\<close>

definition eat_food :: "Game \<Rightarrow> Position \<Rightarrow> Env \<Rightarrow> (error + Game) option" where
  "eat_food g head env =
     (if pos_x head = pos_x (f_position (food g)) \<and> pos_y head = pos_y (f_position (food g))
      then (let g1 = g\<lparr>score := score g + f_value (food g)\<rparr>;
                g2 = g1\<lparr>snake := grow (snake g1)\<rparr>
            in case generate_food g2 env of
                 None \<Rightarrow> None
               | Some (Inl err) \<Rightarrow> Some (Inl err)
               | Some (Inr f) \<Rightarrow> Some (Inr (g2\<lparr>food := f\<rparr>)))
      else Some (Inr g))"

text \<open>Lines 314 to 319: the flashing of special food.\<close>

definition update_flash :: "Game \<Rightarrow> Env \<Rightarrow> Game" where
  "update_flash g env =
     (let current_time = ticks_now env
      in if current_time - last_update_time g > food_flash_interval g
         then (let g1 = (if f_type (food g) \<noteq> REGULAR
                         then g\<lparr>food := (food g)\<lparr>flash_state := \<not> flash_state (food g)\<rparr>\<rparr>
                         else g)
               in g1\<lparr>last_update_time := current_time\<rparr>)
         else g)"

text \<open>
  Lines 321 to 333: every enemy moves, then the head (the cell read at line 302) is compared
  with the enemies' positions.
\<close>

definition update_enemies :: "Game \<Rightarrow> Position \<Rightarrow> Game" where
  "update_enemies g head =
     (if spawn_enemies g
      then (let g1 = g\<lparr>enemies := map (\<lambda>e. move_towards_snake e head (body (snake g))) (enemies g)\<rparr>
            in if list_ex (\<lambda>e. pos_x head = pos_x (position e) \<and> pos_y head = pos_y (position e)) (enemies g1)
               then set_game_over g1
               else g1)
      else g)"

definition update :: "Game \<Rightarrow> Env \<Rightarrow> (error + Game) option" where
  "update g env =
     (case move (snake g) of
        Inl err \<Rightarrow> Some (Inl err)
      | Inr s1 \<Rightarrow>
          (let g1 = g\<lparr>snake := s1\<rparr>
           in case check_collision g1 of
                Inl err \<Rightarrow> Some (Inl err)
              | Inr hit \<Rightarrow>
                  if hit then Some (Inr (set_game_over g1))
                  else (case body (snake g1) of
                          [] \<Rightarrow> Some (Inl IndexError)
                        | head # rest \<Rightarrow>
                            (case eat_food g1 head env of
                               None \<Rightarrow> None
                             | Some (Inl err) \<Rightarrow> Some (Inl err)
                             | Some (Inr g2) \<Rightarrow> Some (Inr (update_enemies (update_flash g2 env) head))))))"

subsection \<open>The main loop\<close>

text \<open>
  \<^verbatim>\<open>show_game_over\<close>: after drawing, it polls the events until the space key is pressed.
  One pass over a batch of events (the \<^verbatim>\<open>for\<close> loop) carries the flag \<^verbatim>\<open>waiting\<close>;
  \<^verbatim>\<open>QUIT\<close> and the escape key leave through \<^verbatim>\<open>sys.exit()\<close>. Batch \<open>i\<close> of the screen is
  \<open>batches i\<close>; the result is \<open>None\<close> when no batch ever ends the wait.
\<close>

fun game_over_events :: "event list \<Rightarrow> bool \<Rightarrow> error + bool" where
  "game_over_events [] waiting = Inr waiting"
| "game_over_events (QUIT # evs) waiting = Inl SystemExit"
| "game_over_events (KEYDOWN k # evs) waiting =
     (if k = K_SPACE then game_over_events evs False
      else if k = K_ESCAPE then Inl SystemExit
      else game_over_events evs waiting)"
| "game_over_events (Other_event # evs) waiting = game_over_events evs waiting"

partial_function (option) show_game_over :: "(nat \<Rightarrow> event list) \<Rightarrow> nat \<Rightarrow> (error + unit) option"
where
  "show_game_over batches i =
     (case game_over_events (batches i) True of
        Inl err \<Rightarrow> Some (Inl err)
      | Inr waiting \<Rightarrow> if waiting then show_game_over batches (Suc i) else Some (Inr ()))"

text \<open>
  The \<^verbatim>\<open>while not self.game_over\<close> loop of \<^verbatim>\<open>run\<close> (lines 474 to 478), from iteration
  \<open>i\<close> on: iteration \<open>i\<close> reads the events and the environment \<open>inputs i\<close>. Drawing and the
  clock do not change the game. The result is the game at the exit of the loop; \<open>None\<close> when
  the game never ends.
\<close>

partial_function (option) run_loop ::
  "(nat \<Rightarrow> event list \<times> Env) \<Rightarrow> nat \<Rightarrow> Game \<Rightarrow> (error + Game) option"
where
  "run_loop inputs i g =
     (if \<not> game_over g
      then (case handle_events (fst (inputs i)) g of
              Inl err \<Rightarrow> Some (Inl err)
            | Inr g1 \<Rightarrow>
                (case update g1 (snd (inputs i)) of
                   None \<Rightarrow> None
                 | Some (Inl err) \<Rightarrow> Some (Inl err)
                 | Some (Inr g2) \<Rightarrow> run_loop inputs (Suc i) g2))
      else Some (Inr g))"

text \<open>
  Lines 474 to 481 of \<^verbatim>\<open>run\<close>: the loop, the game-over screen, and the score that is
  returned, together with the final game. (The placement of the enemies at the start of
  \<^verbatim>\<open>run\<close>, lines 456 to 472, comes before and is not part of this function.)
\<close>

definition run_main ::
  "(nat \<Rightarrow> event list \<times> Env) \<Rightarrow> (nat \<Rightarrow> event list) \<Rightarrow> Game \<Rightarrow> (error + Game \<times> int) option" where
  "run_main inputs batches g =
     (case run_loop inputs 0 g of
        None \<Rightarrow> None
      | Some (Inl err) \<Rightarrow> Some (Inl err)
      | Some (Inr g1) \<Rightarrow>
          (case show_game_over batches 0 of
             None \<Rightarrow> None
           | Some (Inl err) \<Rightarrow> Some (Inl err)
           | Some (Inr u) \<Rightarrow> Some (Inr (g1, score g1))))"

subsection \<open>Construction\<close>

text \<open>
  \<^verbatim>\<open>Game.__init__\<close>: \<open>hs\<close> is what \<^verbatim>\<open>load_high_score\<close> read. The food is generated with the
  basic layout and no enemy, before the remaining fields are set.
\<close>

definition lookup_layout :: "string \<Rightarrow> error + (int \<times> int) list" where
  "lookup_layout name = (case MAP_LAYOUTS name of None \<Rightarrow> Inl KeyError | Some ws \<Rightarrow> Inr ws)"

definition Game_init :: "int \<Rightarrow> int \<Rightarrow> int \<Rightarrow> Env \<Rightarrow> (error + Game) option" where
  "Game_init w h hs env =
     (let cs = 20; gw = w div cs; gh = h div cs
      in case lookup_layout ''BASIC'' of
           Inl err \<Rightarrow> Some (Inl err)
         | Inr ws \<Rightarrow>
             (let sn = Snake_init \<lparr>pos_x = gw div 2, pos_y = gh div 2\<rparr>
              in case generate_food_loop gw gh (body sn) ws [] env 0 of
                   None \<Rightarrow> None
                 | Some (Inl err) \<Rightarrow> Some (Inl err)
                 | Some (Inr f) \<Rightarrow>
                     Some (Inr \<lparr>width = w, height = h, cell_size = cs, grid_width = gw,
                                grid_height = gh, score = 0, high_score = hs,
                                difficulty = ''EASY'', map_style = ''BASIC'', walls = ws,
                                enemies = [], enemy_count = 0, spawn_enemies = False,
                                snake = sn, food = f, game_over = False,
                                last_update_time = ticks_now env, food_flash_interval = 500\<rparr>)))"

text \<open>
  The "Start Game" branch of \<^verbatim>\<open>Menu.show\<close> (lines 552 to 557): the game is built, then the
  menu's choices are written into it.
\<close>

definition start_game ::
  "int \<Rightarrow> int \<Rightarrow> string \<Rightarrow> string \<Rightarrow> bool \<Rightarrow> int \<Rightarrow> int \<Rightarrow> Env \<Rightarrow> (error + Game) option" where
  "start_game w h diff style spawn cnt hs env =
     (case Game_init w h hs env of
        None \<Rightarrow> None
      | Some (Inl err) \<Rightarrow> Some (Inl err)
      | Some (Inr g) \<Rightarrow>
          (case lookup_layout style of
             Inl err \<Rightarrow> Some (Inl err)
           | Inr ws \<Rightarrow>
               Some (Inr (g\<lparr>difficulty := diff, map_style := style, walls := ws,
                            spawn_enemies := spawn, enemy_count := cnt\<rparr>))))"

section \<open>Vocabulary of the properties\<close>

text \<open>The four headings, the unit step each one stands for, and the reverse of a heading.\<close>

definition headings :: "string list" where
  "headings = [''UP'', ''DOWN'', ''LEFT'', ''RIGHT'']"

definition heading_step :: "string \<Rightarrow> int \<times> int" where
  "heading_step d =
     (if d = ''UP'' then (0, - 1) else if d = ''DOWN'' then (0, 1)
      else if d = ''LEFT'' then (- 1, 0) else if d = ''RIGHT'' then (1, 0) else (0, 0))"

definition opposite :: "string \<Rightarrow> string" where
  "opposite d =
     (if d = ''UP'' then ''DOWN'' else if d = ''DOWN'' then ''UP''
      else if d = ''LEFT'' then ''RIGHT'' else if d = ''RIGHT'' then ''LEFT'' else d)"

text \<open>The heading an arrow key asks for.\<close>

definition key_heading :: "key \<Rightarrow> string option" where
  "key_heading k =
     (case k of K_UP \<Rightarrow> Some ''UP'' | K_DOWN \<Rightarrow> Some ''DOWN'' | K_LEFT \<Rightarrow> Some ''LEFT''
      | K_RIGHT \<Rightarrow> Some ''RIGHT'' | _ \<Rightarrow> None)"

text \<open>
  The score of a candidate cell in the words of the specification: \<open>- 2\<close> when the move helps
  on the prioritized axis, else \<open>2\<close>, plus \<open>- 1\<close> when it helps on the other axis, else \<open>1\<close>.
  A move helps on an axis when its offset on that axis is not zero and has the sign of the
  enemy's offset to the snake's head; the horizontal axis is prioritized exactly when
  \<open>\<bar>dx\<bar> > \<bar>dy\<bar>\<close>.
\<close>

definition chase_score :: "Position \<Rightarrow> Position \<Rightarrow> Position \<Rightarrow> int" where
  "chase_score enemy_pos snake_head m =
     (let dx = pos_x snake_head - pos_x enemy_pos;
          dy = pos_y snake_head - pos_y enemy_pos;
          mdx = pos_x m - pos_x enemy_pos;
          mdy = pos_y m - pos_y enemy_pos;
          helps_h = (sgn mdx = sgn dx \<and> mdx \<noteq> 0);
          helps_v = (sgn mdy = sgn dy \<and> mdy \<noteq> 0);
          horizontal = (\<bar>dx\<bar> > \<bar>dy\<bar>);
          helps_prioritized = (if horizontal then helps_h else helps_v);
          helps_other = (if horizontal then helps_v else helps_h)
      in (if helps_prioritized then - 2 else 2) + (if helps_other then - 1 else 1))"

text \<open>An enemy as \<^verbatim>\<open>Enemy.__init__\<close> builds it, on the 40 by 30 grid without walls.\<close>

definition demo_enemy :: "Position \<Rightarrow> Enemy" where
  "demo_enemy p = Enemy_init p 40 30 []"

text \<open>
  The cell that attempt \<open>i\<close> of the placement loop draws on a grid of positive size.
\<close>

definition attempt_cell :: "int \<Rightarrow> int \<Rightarrow> Env \<Rightarrow> nat \<Rightarrow> Position" where
  "attempt_cell gw gh env i =
     \<lparr>pos_x = fst (rand_cells env i) mod gw, pos_y = snd (rand_cells env i) mod gh\<rparr>"

text \<open>A fixed environment and the game that \<^verbatim>\<open>Game(800, 600)\<close> builds, with the food at a given cell.\<close>

definition demo_env :: Env where
  "demo_env = \<lparr>rand_cells = (\<lambda>i. (3, 3)), rand_roll = 1 / 2, ticks_spawn = 0, ticks_now = 0\<rparr>"

definition demo_game :: "Position \<Rightarrow> Game" where
  "demo_game food_pos =
     \<lparr>width = 800, height = 600, cell_size = 20, grid_width = 40, grid_height = 30,
      score = 0, high_score = 0, difficulty = ''EASY'', map_style = ''BASIC'', walls = [],
      enemies = [], enemy_count = 0, spawn_enemies = False,
      snake = Snake_init \<lparr>pos_x = 20, pos_y = 15\<rparr>, food = new_food food_pos (1 / 2) 0,
      game_over = False, last_update_time = 0, food_flash_interval = 500\<rparr>"

text \<open>
  The game that the menu starts on a window of 400 by 300 pixels with the maze layout, when
  the first draw of the food generator is the cell (3, 3).
\<close>

definition small_maze_game :: Game where
  "small_maze_game =
     \<lparr>width = 400, height = 300, cell_size = 20, grid_width = 20, grid_height = 15,
      score = 0, high_score = 0, difficulty = ''EASY'', map_style = ''MAZE'', walls = MAZE,
      enemies = [], enemy_count = 0, spawn_enemies = False,
      snake = Snake_init \<lparr>pos_x = 10, pos_y = 7\<rparr>,
      food = new_food \<lparr>pos_x = 3, pos_y = 3\<rparr> (1 / 2) 0,
      game_over = False, last_update_time = 0, food_flash_interval = 500\<rparr>"


section \<open>The snake's advance\<close>

text \<open>
  Claim C3. For a snake with a non-empty body and one of the four headings, \<open>move\<close> returns;
  the new body is as long as the old one when no growth was pending, and one longer exactly
  when growth was pending; the growth flag is clear afterwards; the new body starts with the
  old head moved by the unit step of the heading.
\<close>

theorem move_length_head:
  assumes "body s \<noteq> []" and "direction s \<in> set headings"
  shows "\<exists>s' rest'. move s = Inr s' \<and>
           (\<not> growth_pending s \<longrightarrow> length (body s') = length (body s)) \<and>
           (length (body s') = length (body s) + 1 \<longleftrightarrow> growth_pending s) \<and>
           \<not> growth_pending s' \<and>
           body s' = \<lparr>pos_x = pos_x (hd (body s)) + fst (heading_step (direction s)),
                      pos_y = pos_y (hd (body s)) + snd (heading_step (direction s))\<rparr> # rest' \<and>
           \<bar>fst (heading_step (direction s))\<bar> + \<bar>snd (heading_step (direction s))\<bar> = 1"
proof -
  from assms(1) obtain h rest where b: "body s = h # rest" by (cases "body s") auto
  have nh: "new_head_of (direction s) h =
      \<lparr>pos_x = pos_x h + fst (heading_step (direction s)),
       pos_y = pos_y h + snd (heading_step (direction s))\<rparr>"
    using assms(2) by (auto simp: headings_def new_head_of_def heading_step_def)
  have one: "\<bar>fst (heading_step (direction s))\<bar> + \<bar>snd (heading_step (direction s))\<bar> = 1"
    using assms(2) by (auto simp: headings_def heading_step_def)
  show ?thesis
  proof (cases "growth_pending s")
    case True
    then show ?thesis using b nh one by (simp add: move_def)
  next
    case False
    then show ?thesis using b nh one by (simp add: move_def)
  qed
qed

theorem move_length_head_witness:
  "\<exists>s'. move (Snake_init \<lparr>pos_x = 20, pos_y = 15\<rparr>) = Inr s' \<and> length (body s') = 2 \<and>
     \<not> growth_pending s' \<and> body s' ! 0 = \<lparr>pos_x = 21, pos_y = 15\<rparr>"
proof -
  let ?s = "Snake_init \<lparr>pos_x = 20, pos_y = 15\<rparr>"
  have h1: "body ?s \<noteq> []" by (simp add: Snake_init_def)
  have h2: "direction ?s \<in> set headings" by (simp add: Snake_init_def headings_def)
  from move_length_head [OF h1 h2] obtain s' rest' where
    r: "move ?s = Inr s'" "\<not> growth_pending ?s \<longrightarrow> length (body s') = length (body ?s)"
       "\<not> growth_pending s'"
       "body s' = \<lparr>pos_x = pos_x (hd (body ?s)) + fst (heading_step (direction ?s)),
                  pos_y = pos_y (hd (body ?s)) + snd (heading_step (direction ?s))\<rparr> # rest'"
    by blast
  from r(2) have "length (body s') = 2" by (simp add: Snake_init_def)
  moreover from r(4) have "body s' ! 0 = \<lparr>pos_x = 21, pos_y = 15\<rparr>"
    by (simp add: Snake_init_def heading_step_def)
  ultimately show ?thesis using r(1) r(3) by blast
qed

section \<open>The reversal guard\<close>

text \<open>
  Claim C8. With the snake heading \<open>h\<close>, an arrow key for the exact reverse of \<open>h\<close> leaves
  the heading \<open>h\<close>; an arrow key for any other heading, \<open>h\<close> itself included, sets it.
\<close>

theorem reversal_guard:
  assumes "direction s \<in> set headings" and "key_heading k = Some d"
  shows "direction (handle_keydown k s) = (if d = opposite (direction s) then direction s else d)"
  using assms
  by (cases k) (auto simp: headings_def key_heading_def opposite_def handle_keydown_def)

theorem reversal_guard_witness:
  "direction (handle_keydown K_LEFT (Snake_init \<lparr>pos_x = 20, pos_y = 15\<rparr>)) = ''RIGHT'' \<and>
   direction (handle_keydown K_RIGHT (Snake_init \<lparr>pos_x = 20, pos_y = 15\<rparr>)) = ''RIGHT'' \<and>
   direction (handle_keydown K_UP (Snake_init \<lparr>pos_x = 20, pos_y = 15\<rparr>)) = ''UP''"
  using reversal_guard [of "Snake_init \<lparr>pos_x = 20, pos_y = 15\<rparr>" K_LEFT "''LEFT''"]
    reversal_guard [of "Snake_init \<lparr>pos_x = 20, pos_y = 15\<rparr>" K_RIGHT "''RIGHT''"]
    reversal_guard [of "Snake_init \<lparr>pos_x = 20, pos_y = 15\<rparr>" K_UP "''UP''"]
  by (simp add: Snake_init_def headings_def key_heading_def opposite_def)

section \<open>Auxiliary facts\<close>

lemma Position_eq_iff: "(pos_x (a::Position) = pos_x b \<and> pos_y a = pos_y b) = (a = b)"
  by (cases a, cases b) auto

lemma wall_ex: "list_ex (\<lambda>w. fst w = a \<and> snd w = c) ws = ((a, c) \<in> set ws)"
  by (force simp: list_ex_iff)

lemma pos_ex: "list_ex (\<lambda>b. pos_x b = pos_x m \<and> pos_y b = pos_y m) bs = ((m::Position) \<in> set bs)"
  by (simp add: list_ex_iff Position_eq_iff)

lemma min_by_mem: "min_by key b xs \<in> set (b # xs)"
  by (induction xs arbitrary: b) auto

lemma min_by_first_min:
  "\<exists>pre post. b # xs = pre @ min_by key b xs # post \<and>
     (\<forall>y\<in>set pre. key (min_by key b xs) < key y) \<and>
     (\<forall>y\<in>set post. key (min_by key b xs) \<le> key y)"
proof (induction xs arbitrary: b)
  case Nil
  show ?case by (rule exI [of _ "[]"], rule exI [of _ "[]"]) simp
next
  case (Cons x xs)
  show ?case
  proof (cases "key x < key b")
    case True
    let ?r = "min_by key x xs"
    from Cons.IH [of x] obtain pre post where
      d: "x # xs = pre @ ?r # post"
         "\<forall>y\<in>set pre. key ?r < key y"
         "\<forall>y\<in>set post. key ?r \<le> key y" by blast
    have le: "key ?r \<le> key x"
    proof (cases pre)
      case Nil
      have e: "x = ?r"
        using d(1) [unfolded Nil append_Nil] by (rule list.inject [THEN iffD1, THEN conjunct1])
      show ?thesis by (subst e [symmetric]) (rule order_refl)
    next
      case (Cons p ps)
      with d(1) have "x \<in> set pre" by simp
      with d(2) show ?thesis by force
    qed
    have 1: "b # x # xs = (b # pre) @ ?r # post" using d(1) by simp
    have 2: "\<forall>y\<in>set (b # pre). key ?r < key y" using d(2) le True by auto
    have r: "min_by key b (x # xs) = ?r" using True by simp
    show ?thesis unfolding r using 1 2 d(3) by blast
  next
    case False
    let ?r = "min_by key b xs"
    have r: "min_by key b (x # xs) = ?r" using False by simp
    from Cons.IH [of b] obtain pre post where
      d: "b # xs = pre @ ?r # post"
         "\<forall>y\<in>set pre. key ?r < key y"
         "\<forall>y\<in>set post. key ?r \<le> key y" by blast
    show ?thesis
    proof (cases pre)
      case Nil
      have e0: "b # xs = ?r # post" using d(1) [unfolded Nil append_Nil] .
      have e: "?r = b" "post = xs"
        by (rule sym, rule e0 [THEN list.inject [THEN iffD1, THEN conjunct1]])
           (rule sym, rule e0 [THEN list.inject [THEN iffD1, THEN conjunct2]])
      have 1: "b # x # xs = [] @ ?r # (x # xs)" using e(1) by simp
      have 2: "\<forall>y\<in>set (x # xs). key ?r \<le> key y" using False d(3) e by auto
      have 3: "\<forall>y\<in>set ([]::'a list). key ?r < key y" by simp
      show ?thesis unfolding r using 1 2 3 by blast
    next
      case (Cons p ps)
      have e1: "b # xs = p # (ps @ ?r # post)" using d(1) [unfolded Cons append_Cons] .
      have pb: "p = b" "xs = ps @ ?r # post"
        by (rule sym, rule e1 [THEN list.inject [THEN iffD1, THEN conjunct1]])
           (rule e1 [THEN list.inject [THEN iffD1, THEN conjunct2]])
      have lt: "key ?r < key b" using d(2) Cons pb(1) by simp
      have 2: "\<forall>y\<in>set (b # x # ps). key ?r < key y" using d(2) Cons False lt by auto
      have 1: "b # x # xs = (b # x # ps) @ ?r # post" using pb(2) by simp
      show ?thesis unfolding r using 1 2 d(3) by blast
    qed
  qed
qed

lemma helps_sgn: "((d > 0 \<and> m > 0) \<or> (d < 0 \<and> m < 0)) = (sgn m = sgn d \<and> m \<noteq> 0)" for d m :: int
  by (cases "d > 0"; cases "d < 0"; cases "m > 0"; cases "m < 0"; simp add: sgn_if)

lemma move_score_chase: "move_score e h m = chase_score (position e) h m"
  unfolding move_score_def chase_score_def Let_def helps_sgn by simp

lemma move_blocked_iff:
  "move_blocked e sb m \<longleftrightarrow>
     pos_x m < 0 \<or> e_grid_width e \<le> pos_x m \<or> pos_y m < 0 \<or> e_grid_height e \<le> pos_y m \<or>
     (pos_x m, pos_y m) \<in> set (e_walls e) \<or> m \<in> set (drop 1 sb)"
  by (simp add: move_blocked_def wall_ex pos_ex)

lemma valid_move_iff:
  "m \<in> set (get_valid_moves e sb) \<longleftrightarrow>
     m \<in> set (possible_moves e) \<and> 0 \<le> pos_x m \<and> pos_x m < e_grid_width e \<and>
     0 \<le> pos_y m \<and> pos_y m < e_grid_height e \<and> (pos_x m, pos_y m) \<notin> set (e_walls e) \<and>
     m \<notin> set (drop 1 sb)"
  unfolding get_valid_moves_def set_filter mem_Collect_eq move_blocked_iff
  by (simp add: not_le not_less)

lemma moved_position:
  "\<not> 0 < move_cooldown e \<Longrightarrow> get_valid_moves e sb = m # ms \<Longrightarrow>
     move_towards_snake e h sb = e\<lparr>position := min_by (move_score e h) m ms, move_cooldown := move_delay e\<rparr>"
  by (simp add: move_towards_snake_def)

lemma demo_valid_moves:
  "get_valid_moves (demo_enemy \<lparr>pos_x = 5, pos_y = 5\<rparr>) [\<lparr>pos_x = 8, pos_y = 5\<rparr>, \<lparr>pos_x = 7, pos_y = 5\<rparr>]
     = [\<lparr>pos_x = 5, pos_y = 4\<rparr>, \<lparr>pos_x = 5, pos_y = 6\<rparr>, \<lparr>pos_x = 4, pos_y = 5\<rparr>, \<lparr>pos_x = 6, pos_y = 5\<rparr>]"
  by (simp add: get_valid_moves_def possible_moves_def move_blocked_def demo_enemy_def Enemy_init_def)

subsection \<open>Facts about food generation and the tick\<close>

lemma randint0: "0 < n \<Longrightarrow> randint 0 (n - 1) r = Inr (r mod n)"
  by (simp add: randint_def)

lemma new_food_position: "f_position (new_food p r t) = p"
  by (simp add: new_food_def)

lemma gen_loop_step:
  assumes "0 < gw" and "0 < gh"
  shows "generate_food_loop gw gh sb ws es env i =
     (if \<not> cell_taken sb ws es (attempt_cell gw gh env i)
      then Some (Inr (new_food (attempt_cell gw gh env i) (rand_roll env) (ticks_spawn env)))
      else generate_food_loop gw gh sb ws es env (Suc i))"
  by (subst generate_food_loop.simps) (simp add: randint0 assms attempt_cell_def)

lemma gen_loop_returns:
  assumes "0 < gw" and "0 < gh" and "\<not> cell_taken sb ws es (attempt_cell gw gh env k)" and "i \<le> k"
  shows "\<exists>j\<ge>i. j \<le> k \<and> \<not> cell_taken sb ws es (attempt_cell gw gh env j) \<and>
           generate_food_loop gw gh sb ws es env i =
             Some (Inr (new_food (attempt_cell gw gh env j) (rand_roll env) (ticks_spawn env)))"
  using assms(4)
proof (induction "k - i" arbitrary: i)
  case 0
  then have "i = k" by simp
  then show ?case using assms(3) gen_loop_step [OF assms(1,2), of sb ws es env k] by auto
next
  case (Suc n)
  show ?case
  proof (cases "cell_taken sb ws es (attempt_cell gw gh env i)")
    case False
    then show ?thesis using Suc.prems gen_loop_step [OF assms(1,2), of sb ws es env i] by auto
  next
    case True
    from Suc.hyps(2) Suc.prems have "n = k - Suc i" "Suc i \<le> k" by simp_all
    from Suc.hyps(1) [OF this] obtain j where
      j: "Suc i \<le> j" "j \<le> k" "\<not> cell_taken sb ws es (attempt_cell gw gh env j)"
         "generate_food_loop gw gh sb ws es env (Suc i) =
             Some (Inr (new_food (attempt_cell gw gh env j) (rand_roll env) (ticks_spawn env)))"
      by blast
    have "generate_food_loop gw gh sb ws es env i =
             Some (Inr (new_food (attempt_cell gw gh env j) (rand_roll env) (ticks_spawn env)))"
      using True j(4) gen_loop_step [OF assms(1,2), of sb ws es env i] by simp
    then show ?thesis using j(1,2,3) by (intro exI [of _ j]) simp
  qed
qed

lemma enemy_ex:
  "list_ex (\<lambda>e. pos_x (position e) = pos_x p \<and> pos_y (position e) = pos_y p) es
     = (p \<in> position ` set es)"
  by (auto simp: list_ex_iff Position_eq_iff)

lemma enemy_ex_head:
  "list_ex (\<lambda>e. pos_x p = pos_x (position e) \<and> pos_y p = pos_y (position e)) es
     = (p \<in> position ` set es)"
  by (auto simp: list_ex_iff Position_eq_iff)

lemma cell_taken_iff:
  "cell_taken sb ws es p \<longleftrightarrow>
     p \<in> set sb \<or> (pos_x p, pos_y p) \<in> set ws \<or> p \<in> position ` set es"
  by (simp add: cell_taken_def pos_ex wall_ex enemy_ex)

lemma gen_loop_sound:
  assumes "generate_food_loop gw gh sb ws es env i = Some r"
  shows "\<forall>f. r = Inr f \<longrightarrow>
        \<not> cell_taken sb ws es (f_position f) \<and>
        0 \<le> pos_x (f_position f) \<and> pos_x (f_position f) < gw \<and>
        0 \<le> pos_y (f_position f) \<and> pos_y (f_position f) < gh"
proof (rule generate_food_loop.raw_induct
    [where P = "\<lambda>gw gh sb ws es env i r. \<forall>f. r = Inr f \<longrightarrow>
        \<not> cell_taken sb ws es (f_position f) \<and>
        0 \<le> pos_x (f_position f) \<and> pos_x (f_position f) < gw \<and>
        0 \<le> pos_y (f_position f) \<and> pos_y (f_position f) < gh", OF _ assms], goal_cases)
  case (1 rec gw gh sb ws es env i r)
  show ?case
  proof (cases "0 < gw \<and> 0 < gh")
    case False
    have "r = Inl ValueError"
    proof (cases "0 < gw")
      case True
      with False have "\<not> 0 < gh" by simp
      then have "randint 0 (gh - 1) (snd (rand_cells env i)) = Inl ValueError"
        by (simp add: randint_def)
      then show ?thesis using 1(2) True by (simp add: randint0)
    next
      case False
      then have "randint 0 (gw - 1) (fst (rand_cells env i)) = Inl ValueError"
        by (simp add: randint_def)
      then show ?thesis using 1(2) by simp
    qed
    then show ?thesis by simp
  next
    case True
    then have pos: "0 < gw" "0 < gh" by simp_all
    let ?c = "attempt_cell gw gh env i"
    have step: "(if \<not> cell_taken sb ws es ?c
        then Some (Inr (new_food ?c (rand_roll env) (ticks_spawn env)))
        else rec gw gh sb ws es env (Suc i)) = Some r"
      using 1(2) unfolding randint0 [OF pos(1)] randint0 [OF pos(2)] attempt_cell_def
      by (simp only: sum.case)
    show ?thesis
    proof (cases "cell_taken sb ws es ?c")
      case True
      with step have "rec gw gh sb ws es env (Suc i) = Some r" by simp
      from 1(1) [OF this] show ?thesis .
    next
      case False
      with step have r: "r = Inr (new_food ?c (rand_roll env) (ticks_spawn env))" by simp
      have "0 \<le> pos_x ?c \<and> pos_x ?c < gw \<and> 0 \<le> pos_y ?c \<and> pos_y ?c < gh"
        using pos by (simp add: attempt_cell_def)
      then show ?thesis using False r by (simp add: new_food_position)
    qed
  qed
qed

lemma move_body:
  assumes m: "move s = Inr s1"
  shows "\<exists>h rest. body s = h # rest \<and>
       body s1 = new_head_of (direction s) h #
                   (if growth_pending s then h # rest else butlast (h # rest))"
proof (cases "body s")
  case Nil
  with m show ?thesis by (simp add: move_def)
next
  case (Cons h rest)
  have "body s1 = new_head_of (direction s) h #
                   (if growth_pending s then h # rest else butlast (h # rest))"
  proof (cases "growth_pending s")
    case True
    with m Cons have "s\<lparr>body := new_head_of (direction s) h # h # rest, growth_pending := False\<rparr> = s1"
      by (simp add: move_def)
    then have "body s1 = new_head_of (direction s) h # h # rest" by (auto simp del: butlast.simps)
    then show ?thesis using True by simp
  next
    case False
    with m Cons have "s\<lparr>body := butlast (new_head_of (direction s) h # h # rest)\<rparr> = s1"
      by (simp add: move_def del: butlast.simps)
    then have "body s1 = butlast (new_head_of (direction s) h # h # rest)" by (auto simp del: butlast.simps)
    then show ?thesis using False by simp
  qed
  with Cons show ?thesis by blast
qed

lemma check_collision_iff:
  "body (snake g) = nh # others \<Longrightarrow>
     check_collision g =
       Inr (pos_x nh < 0 \<or> grid_width g \<le> pos_x nh \<or> pos_y nh < 0 \<or> grid_height g \<le> pos_y nh \<or>
            nh \<in> set others \<or> (pos_x nh, pos_y nh) \<in> set (walls g))"
  by (cases others) (auto simp: check_collision_def pos_ex wall_ex)

lemma update_hit:
  "move (snake g) = Inr s1 \<Longrightarrow> check_collision (g\<lparr>snake := s1\<rparr>) = Inr True \<Longrightarrow>
     update g env = Some (Inr (set_game_over (g\<lparr>snake := s1\<rparr>)))"
  by (simp add: update_def)

lemma update_alive:
  "move (snake g) = Inr s1 \<Longrightarrow> check_collision (g\<lparr>snake := s1\<rparr>) = Inr False \<Longrightarrow>
   body s1 = nh # others \<Longrightarrow>
     update g env =
       (case eat_food (g\<lparr>snake := s1\<rparr>) nh env of
          None \<Rightarrow> None
        | Some (Inl err) \<Rightarrow> Some (Inl err)
        | Some (Inr g2) \<Rightarrow> Some (Inr (update_enemies (update_flash g2 env) nh)))"
  by (simp add: update_def)

lemma set_game_over_fields:
  "game_over (set_game_over g)" "score (set_game_over g) = score g"
  "food (set_game_over g) = food g" "enemies (set_game_over g) = enemies g"
  "snake (set_game_over g) = snake g" "walls (set_game_over g) = walls g"
  "grid_width (set_game_over g) = grid_width g" "grid_height (set_game_over g) = grid_height g"
  by (simp_all add: set_game_over_def Let_def)

lemma update_flash_fields:
  "game_over (update_flash g env) = game_over g" "score (update_flash g env) = score g"
  "enemies (update_flash g env) = enemies g" "snake (update_flash g env) = snake g"
  "walls (update_flash g env) = walls g" "spawn_enemies (update_flash g env) = spawn_enemies g"
  "grid_width (update_flash g env) = grid_width g" "grid_height (update_flash g env) = grid_height g"
  "f_position (food (update_flash g env)) = f_position (food g)"
  by (simp_all add: update_flash_def Let_def)

lemma update_enemies_fields:
  "score (update_enemies g h) = score g" "snake (update_enemies g h) = snake g"
  "walls (update_enemies g h) = walls g" "food (update_enemies g h) = food g"
  "grid_width (update_enemies g h) = grid_width g" "grid_height (update_enemies g h) = grid_height g"
  "enemies (update_enemies g h) =
     (if spawn_enemies g then map (\<lambda>e. move_towards_snake e h (body (snake g))) (enemies g)
      else enemies g)"
  by (simp_all add: update_enemies_def set_game_over_def Let_def)

lemma update_enemies_game_over:
  "game_over (update_enemies g h) =
     (game_over g \<or> (spawn_enemies g \<and> h \<in> position ` set (enemies (update_enemies g h))))"
  by (simp add: update_enemies_def set_game_over_def Let_def enemy_ex_head)

lemma eat_food_fields:
  assumes "eat_food g h env = Some (Inr g2)"
  shows "game_over g2 = game_over g" "enemies g2 = enemies g" "spawn_enemies g2 = spawn_enemies g"
    "walls g2 = walls g" "body (snake g2) = body (snake g)"
    "grid_width g2 = grid_width g" "grid_height g2 = grid_height g"
  using assms
  by (auto simp: eat_food_def Let_def grow_def split: if_splits option.splits sum.splits)

section \<open>The enemy's choice of a move\<close>

text \<open>
  Claim C4. An enemy whose cooldown is 0 (any cooldown that is not positive) and that has no
  surviving candidate stays where it is and gets its cooldown reset to the move delay. With
  at least one surviving candidate it moves to the first candidate of least score in the list
  of surviving candidates: every candidate before the chosen one has a strictly greater
  score, every candidate after it has a score at least as great; the cooldown is reset to the
  move delay. The surviving candidates are the cells Up, Down, Left, Right of the enemy, in
  this order, without the blocked ones, and the score is the one of the specification.
\<close>

theorem enemy_choice:
  assumes "move_cooldown e \<le> 0"
  shows "(get_valid_moves e sb = [] \<longrightarrow>
            move_towards_snake e h sb = e\<lparr>move_cooldown := move_delay e\<rparr>) \<and>
         (get_valid_moves e sb \<noteq> [] \<longrightarrow>
            (\<exists>pre post. get_valid_moves e sb = pre @ position (move_towards_snake e h sb) # post \<and>
               (\<forall>m\<in>set pre. chase_score (position e) h (position (move_towards_snake e h sb))
                               < chase_score (position e) h m) \<and>
               (\<forall>m\<in>set post. chase_score (position e) h (position (move_towards_snake e h sb))
                               \<le> chase_score (position e) h m)) \<and>
            move_cooldown (move_towards_snake e h sb) = move_delay e \<and>
            move_delay (move_towards_snake e h sb) = move_delay e) \<and>
         get_valid_moves e sb =
           filter (\<lambda>m. \<not> move_blocked e sb m)
             [\<lparr>pos_x = pos_x (position e), pos_y = pos_y (position e) - 1\<rparr>,
              \<lparr>pos_x = pos_x (position e), pos_y = pos_y (position e) + 1\<rparr>,
              \<lparr>pos_x = pos_x (position e) - 1, pos_y = pos_y (position e)\<rparr>,
              \<lparr>pos_x = pos_x (position e) + 1, pos_y = pos_y (position e)\<rparr>]"
proof (intro conjI impI)
  assume "get_valid_moves e sb = []"
  then show "move_towards_snake e h sb = e\<lparr>move_cooldown := move_delay e\<rparr>"
    using assms by (simp add: move_towards_snake_def)
next
  assume ne: "get_valid_moves e sb \<noteq> []"
  then obtain m ms where v: "get_valid_moves e sb = m # ms"
    by (cases "get_valid_moves e sb") auto
  have nc: "\<not> 0 < move_cooldown e" using assms by simp
  note mv = moved_position [OF nc v, of h]
  have p: "position (move_towards_snake e h sb) = min_by (chase_score (position e) h) m ms"
    unfolding mv by (simp add: move_score_chase [abs_def])
  show "\<exists>pre post. get_valid_moves e sb = pre @ position (move_towards_snake e h sb) # post \<and>
               (\<forall>m\<in>set pre. chase_score (position e) h (position (move_towards_snake e h sb))
                               < chase_score (position e) h m) \<and>
               (\<forall>m\<in>set post. chase_score (position e) h (position (move_towards_snake e h sb))
                               \<le> chase_score (position e) h m)"
    unfolding p v by (rule min_by_first_min)
  show "move_cooldown (move_towards_snake e h sb) = move_delay e"
    unfolding mv by simp
  show "move_delay (move_towards_snake e h sb) = move_delay e"
    unfolding mv by simp
next
  show "get_valid_moves e sb =
           filter (\<lambda>m. \<not> move_blocked e sb m)
             [\<lparr>pos_x = pos_x (position e), pos_y = pos_y (position e) - 1\<rparr>,
              \<lparr>pos_x = pos_x (position e), pos_y = pos_y (position e) + 1\<rparr>,
              \<lparr>pos_x = pos_x (position e) - 1, pos_y = pos_y (position e)\<rparr>,
              \<lparr>pos_x = pos_x (position e) + 1, pos_y = pos_y (position e)\<rparr>]"
    by (simp only: get_valid_moves_def possible_moves_def)
qed

theorem enemy_choice_witness:
  "position (move_towards_snake (demo_enemy \<lparr>pos_x = 5, pos_y = 5\<rparr>) \<lparr>pos_x = 8, pos_y = 5\<rparr>
      [\<lparr>pos_x = 8, pos_y = 5\<rparr>, \<lparr>pos_x = 7, pos_y = 5\<rparr>]) = \<lparr>pos_x = 6, pos_y = 5\<rparr> \<and>
   move_cooldown (move_towards_snake (demo_enemy \<lparr>pos_x = 5, pos_y = 5\<rparr>) \<lparr>pos_x = 8, pos_y = 5\<rparr>
      [\<lparr>pos_x = 8, pos_y = 5\<rparr>, \<lparr>pos_x = 7, pos_y = 5\<rparr>]) = 2"
proof -
  let ?e = "demo_enemy \<lparr>pos_x = 5, pos_y = 5\<rparr>"
  let ?h = "\<lparr>pos_x = 8, pos_y = 5\<rparr>"
  let ?sb = "[\<lparr>pos_x = 8, pos_y = 5\<rparr>, \<lparr>pos_x = 7, pos_y = 5\<rparr>]"
  let ?p = "position (move_towards_snake ?e ?h ?sb)"
  have c: "move_cooldown ?e \<le> 0" by (simp add: demo_enemy_def Enemy_init_def)
  have ne: "get_valid_moves ?e ?sb \<noteq> []" by (simp add: demo_valid_moves)
  from enemy_choice [OF c, of ?sb ?h] ne obtain pre post where
    d: "get_valid_moves ?e ?sb = pre @ ?p # post"
       "\<forall>m\<in>set pre. chase_score (position ?e) ?h ?p < chase_score (position ?e) ?h m"
       "\<forall>m\<in>set post. chase_score (position ?e) ?h ?p \<le> chase_score (position ?e) ?h m"
    and cd: "move_cooldown (move_towards_snake ?e ?h ?sb) = move_delay ?e"
    by blast
  have r: "\<lparr>pos_x = 6, pos_y = 5\<rparr> \<in> set (pre @ ?p # post)"
    unfolding d(1) [symmetric] demo_valid_moves by simp
  have sc: "chase_score (position ?e) ?h \<lparr>pos_x = 6, pos_y = 5\<rparr> = - 1"
    by (simp add: chase_score_def demo_enemy_def Enemy_init_def)
  have others: "\<And>m. m \<in> set (pre @ ?p # post) \<Longrightarrow> m \<noteq> \<lparr>pos_x = 6, pos_y = 5\<rparr> \<Longrightarrow>
      chase_score (position ?e) ?h m = 3"
    unfolding d(1) [symmetric] demo_valid_moves
    by (auto simp: chase_score_def demo_enemy_def Enemy_init_def)
  have "?p = \<lparr>pos_x = 6, pos_y = 5\<rparr>"
  proof (rule ccontr)
    assume n: "?p \<noteq> \<lparr>pos_x = 6, pos_y = 5\<rparr>"
    then have 3: "chase_score (position ?e) ?h ?p = 3" using others by simp
    from r n have "\<lparr>pos_x = 6, pos_y = 5\<rparr> \<in> set pre \<or> \<lparr>pos_x = 6, pos_y = 5\<rparr> \<in> set post"
      by auto
    then show False using d(2) d(3) 3 sc by force
  qed
  moreover have "move_delay ?e = 2" by (simp add: demo_enemy_def Enemy_init_def)
  ultimately show ?thesis using cd by simp
qed

section \<open>Legality of the enemy's move\<close>

text \<open>
  Claim C5. When the enemy moves and at least one candidate survives, the cell it moves to is
  inside the grid, is no wall and is no cell of the snake's body after the head. The head
  cell itself is not excluded: every candidate inside the grid that is no wall and no cell
  of the body after the head survives.
\<close>

theorem enemy_move_legal:
  assumes "\<not> 0 < move_cooldown e" and "get_valid_moves e sb \<noteq> []"
  shows "0 \<le> pos_x (position (move_towards_snake e h sb)) \<and>
         pos_x (position (move_towards_snake e h sb)) < e_grid_width e \<and>
         0 \<le> pos_y (position (move_towards_snake e h sb)) \<and>
         pos_y (position (move_towards_snake e h sb)) < e_grid_height e \<and>
         (pos_x (position (move_towards_snake e h sb)), pos_y (position (move_towards_snake e h sb)))
            \<notin> set (e_walls e) \<and>
         position (move_towards_snake e h sb) \<notin> set (drop 1 sb) \<and>
         (\<forall>m\<in>set (possible_moves e).
            0 \<le> pos_x m \<and> pos_x m < e_grid_width e \<and> 0 \<le> pos_y m \<and> pos_y m < e_grid_height e \<and>
            (pos_x m, pos_y m) \<notin> set (e_walls e) \<and> m \<notin> set (drop 1 sb)
            \<longrightarrow> m \<in> set (get_valid_moves e sb))"
proof -
  from assms(2) obtain m ms where v: "get_valid_moves e sb = m # ms"
    by (cases "get_valid_moves e sb") auto
  have "position (move_towards_snake e h sb) \<in> set (get_valid_moves e sb)"
    unfolding moved_position [OF assms(1) v] v using min_by_mem [of "move_score e h" m ms] by simp
  then show ?thesis using valid_move_iff by blast
qed

theorem enemy_move_legal_witness:
  "position (move_towards_snake (demo_enemy \<lparr>pos_x = 8, pos_y = 6\<rparr>) \<lparr>pos_x = 8, pos_y = 5\<rparr>
      [\<lparr>pos_x = 8, pos_y = 5\<rparr>, \<lparr>pos_x = 7, pos_y = 5\<rparr>]) \<notin> set [\<lparr>pos_x = 7, pos_y = 5\<rparr>] \<and>
   \<lparr>pos_x = 8, pos_y = 5\<rparr> \<in> set (get_valid_moves (demo_enemy \<lparr>pos_x = 8, pos_y = 6\<rparr>)
      [\<lparr>pos_x = 8, pos_y = 5\<rparr>, \<lparr>pos_x = 7, pos_y = 5\<rparr>])"
proof -
  let ?e = "demo_enemy \<lparr>pos_x = 8, pos_y = 6\<rparr>"
  let ?h = "\<lparr>pos_x = 8, pos_y = 5\<rparr>"
  let ?sb = "[\<lparr>pos_x = 8, pos_y = 5\<rparr>, \<lparr>pos_x = 7, pos_y = 5\<rparr>]"
  have v: "get_valid_moves ?e ?sb =
      [\<lparr>pos_x = 8, pos_y = 5\<rparr>, \<lparr>pos_x = 8, pos_y = 7\<rparr>, \<lparr>pos_x = 7, pos_y = 6\<rparr>, \<lparr>pos_x = 9, pos_y = 6\<rparr>]"
    by (simp add: get_valid_moves_def possible_moves_def move_blocked_def demo_enemy_def Enemy_init_def)
  have c: "\<not> 0 < move_cooldown ?e" by (simp add: demo_enemy_def Enemy_init_def)
  have ne: "get_valid_moves ?e ?sb \<noteq> []" by (simp add: v)
  from enemy_move_legal [OF c ne, of ?h]
  have "position (move_towards_snake ?e ?h ?sb) \<notin> set (drop 1 ?sb)" by blast
  then show ?thesis by (simp add: v)
qed

section \<open>Terminal collisions against the grid and the snake itself\<close>

lemma demo_move:
  "move (Snake_init \<lparr>pos_x = 20, pos_y = 15\<rparr>) =
     Inr ((Snake_init \<lparr>pos_x = 20, pos_y = 15\<rparr>)
            \<lparr>body := [\<lparr>pos_x = 21, pos_y = 15\<rparr>, \<lparr>pos_x = 20, pos_y = 15\<rparr>]\<rparr>)"
  by (simp add: move_def Snake_init_def new_head_of_def)

text \<open>
  Claim C1. When the head cell of the advanced snake is outside the grid, on a wall or on a
  body cell after the head, \<open>update\<close> returns with the game over, the score, the food
  and the enemies as they were before the tick: neither the food pickup nor the enemies'
  moves are processed.
\<close>

theorem collision_ends_game:
  assumes "move (snake g) = Inr s1" and "body s1 = nh # others"
    and "pos_x nh < 0 \<or> grid_width g \<le> pos_x nh \<or> pos_y nh < 0 \<or> grid_height g \<le> pos_y nh \<or>
         (pos_x nh, pos_y nh) \<in> set (walls g) \<or> nh \<in> set others"
  shows "\<exists>g'. update g env = Some (Inr g') \<and> game_over g' \<and> score g' = score g \<and>
           food g' = food g \<and> enemies g' = enemies g \<and> snake g' = s1"
proof -
  have b: "body (snake (g\<lparr>snake := s1\<rparr>)) = nh # others" using assms(2) by simp
  have "check_collision (g\<lparr>snake := s1\<rparr>) = Inr True"
    unfolding check_collision_iff [OF b] using assms(3) by auto
  from update_hit [OF assms(1) this]
  have "update g env = Some (Inr (set_game_over (g\<lparr>snake := s1\<rparr>)))" .
  then show ?thesis by (simp add: set_game_over_fields)
qed

theorem collision_ends_game_witness:
  "\<exists>g'. update ((demo_game \<lparr>pos_x = 3, pos_y = 3\<rparr>)\<lparr>walls := [(21, 15)]\<rparr>) demo_env = Some (Inr g') \<and>
     game_over g' \<and> score g' = 0 \<and> f_position (food g') = \<lparr>pos_x = 3, pos_y = 3\<rparr>"
proof -
  let ?g = "(demo_game \<lparr>pos_x = 3, pos_y = 3\<rparr>)\<lparr>walls := [(21, 15)]\<rparr>"
  let ?s1 = "(Snake_init \<lparr>pos_x = 20, pos_y = 15\<rparr>)
            \<lparr>body := [\<lparr>pos_x = 21, pos_y = 15\<rparr>, \<lparr>pos_x = 20, pos_y = 15\<rparr>]\<rparr>"
  have m: "move (snake ?g) = Inr ?s1" using demo_move by (simp add: demo_game_def)
  have b: "body ?s1 = \<lparr>pos_x = 21, pos_y = 15\<rparr> # [\<lparr>pos_x = 20, pos_y = 15\<rparr>]" by simp
  have h: "pos_x \<lparr>pos_x = 21, pos_y = 15\<rparr> < 0 \<or> grid_width ?g \<le> pos_x \<lparr>pos_x = 21, pos_y = 15\<rparr> \<or>
      pos_y \<lparr>pos_x = 21, pos_y = 15\<rparr> < 0 \<or> grid_height ?g \<le> pos_y \<lparr>pos_x = 21, pos_y = 15\<rparr> \<or>
      (pos_x \<lparr>pos_x = 21, pos_y = 15\<rparr>, pos_y \<lparr>pos_x = 21, pos_y = 15\<rparr>) \<in> set (walls ?g) \<or>
      \<lparr>pos_x = 21, pos_y = 15\<rparr> \<in> set [\<lparr>pos_x = 20, pos_y = 15\<rparr>]"
    by (simp add: demo_game_def)
  from collision_ends_game [OF m b h, of demo_env] obtain g' where
    r: "update ?g demo_env = Some (Inr g')" "game_over g'" "score g' = score ?g" "food g' = food ?g"
    by blast
  have "score ?g = 0" "f_position (food ?g) = \<lparr>pos_x = 3, pos_y = 3\<rparr>"
    by (simp_all add: demo_game_def new_food_position)
  with r show ?thesis by auto
qed

section \<open>The check of the head against the enemies\<close>

lemma demo_chase_game_update:
  "update ((demo_game \<lparr>pos_x = 3, pos_y = 3\<rparr>)
             \<lparr>spawn_enemies := True, enemies := [demo_enemy \<lparr>pos_x = 21, pos_y = 15\<rparr>]\<rparr>) demo_env =
   Some (Inr ((demo_game \<lparr>pos_x = 3, pos_y = 3\<rparr>)
             \<lparr>spawn_enemies := True, enemies := [demo_enemy \<lparr>pos_x = 21, pos_y = 15\<rparr>],
              snake := (Snake_init \<lparr>pos_x = 20, pos_y = 15\<rparr>)
                         \<lparr>body := [\<lparr>pos_x = 21, pos_y = 15\<rparr>, \<lparr>pos_x = 20, pos_y = 15\<rparr>]\<rparr>,
              enemies := [(demo_enemy \<lparr>pos_x = 21, pos_y = 15\<rparr>)
                            \<lparr>position := \<lparr>pos_x = 21, pos_y = 14\<rparr>, move_cooldown := 2\<rparr>]\<rparr>))"
proof -
  let ?g = "(demo_game \<lparr>pos_x = 3, pos_y = 3\<rparr>)
             \<lparr>spawn_enemies := True, enemies := [demo_enemy \<lparr>pos_x = 21, pos_y = 15\<rparr>]\<rparr>"
  let ?s1 = "(Snake_init \<lparr>pos_x = 20, pos_y = 15\<rparr>)
            \<lparr>body := [\<lparr>pos_x = 21, pos_y = 15\<rparr>, \<lparr>pos_x = 20, pos_y = 15\<rparr>]\<rparr>"
  let ?h = "\<lparr>pos_x = 21, pos_y = 15\<rparr>"
  have m: "move (snake ?g) = Inr ?s1" using demo_move by (simp add: demo_game_def)
  have b: "body ?s1 = ?h # [\<lparr>pos_x = 20, pos_y = 15\<rparr>]" by simp
  have b': "body (snake (?g\<lparr>snake := ?s1\<rparr>)) = ?h # [\<lparr>pos_x = 20, pos_y = 15\<rparr>]" by simp
  have c: "check_collision (?g\<lparr>snake := ?s1\<rparr>) = Inr False"
    unfolding check_collision_iff [OF b'] by (simp add: demo_game_def)
  have e: "eat_food (?g\<lparr>snake := ?s1\<rparr>) ?h demo_env = Some (Inr (?g\<lparr>snake := ?s1\<rparr>))"
    by (simp add: eat_food_def demo_game_def new_food_position)
  have f: "update_flash (?g\<lparr>snake := ?s1\<rparr>) demo_env = ?g\<lparr>snake := ?s1\<rparr>"
    by (simp add: update_flash_def demo_game_def demo_env_def)
  have v: "get_valid_moves (demo_enemy ?h) [?h, \<lparr>pos_x = 20, pos_y = 15\<rparr>] =
      [\<lparr>pos_x = 21, pos_y = 14\<rparr>, \<lparr>pos_x = 21, pos_y = 16\<rparr>, \<lparr>pos_x = 22, pos_y = 15\<rparr>]"
    by (simp add: get_valid_moves_def possible_moves_def move_blocked_def demo_enemy_def Enemy_init_def)
  have nc: "\<not> 0 < move_cooldown (demo_enemy ?h)" by (simp add: demo_enemy_def Enemy_init_def)
  have mv: "move_towards_snake (demo_enemy ?h) ?h [?h, \<lparr>pos_x = 20, pos_y = 15\<rparr>] =
      (demo_enemy ?h)\<lparr>position := \<lparr>pos_x = 21, pos_y = 14\<rparr>, move_cooldown := 2\<rparr>"
    unfolding moved_position [OF nc v] by (simp add: move_score_def demo_enemy_def Enemy_init_def)
  have u: "update_enemies (?g\<lparr>snake := ?s1\<rparr>) ?h =
      ?g\<lparr>snake := ?s1, enemies := [(demo_enemy ?h)\<lparr>position := \<lparr>pos_x = 21, pos_y = 14\<rparr>, move_cooldown := 2\<rparr>]\<rparr>"
    by (simp add: update_enemies_def mv demo_game_def)
  show ?thesis
    unfolding update_alive [OF m c b] e by (simp only: option.case sum.case f u)
qed

text \<open>
  Claim C10. In a tick without a collision against the grid or the snake itself, the game is
  over after \<open>update\<close> exactly when it was over before or the enemies are enabled and one
  of them stands on the head after the enemies have moved. So when the head moves onto a
  cell that an enemy occupied at the start of the tick and no enemy occupies after the
  enemies' moves, a running game keeps running.
\<close>

theorem enemy_check_after_moves:
  assumes "move (snake g) = Inr s1" and "body s1 = nh # others"
    and "check_collision (g\<lparr>snake := s1\<rparr>) = Inr False"
    and "update g env = Some (Inr g')"
  shows "(game_over g' \<longleftrightarrow> game_over g \<or> (spawn_enemies g \<and> nh \<in> position ` set (enemies g'))) \<and>
         (\<not> game_over g \<and> nh \<in> position ` set (enemies g) \<and> nh \<notin> position ` set (enemies g')
            \<longrightarrow> \<not> game_over g')"
proof -
  from assms(4) [unfolded update_alive [OF assms(1,3,2)]]
  obtain g2 where e: "eat_food (g\<lparr>snake := s1\<rparr>) nh env = Some (Inr g2)"
    and g': "g' = update_enemies (update_flash g2 env) nh"
    by (auto split: option.splits sum.splits)
  have "game_over g' \<longleftrightarrow>
      game_over (update_flash g2 env) \<or>
      (spawn_enemies (update_flash g2 env) \<and> nh \<in> position ` set (enemies g'))"
    unfolding g' by (rule update_enemies_game_over)
  then have 1: "game_over g' \<longleftrightarrow> game_over g \<or> (spawn_enemies g \<and> nh \<in> position ` set (enemies g'))"
    by (simp add: update_flash_fields eat_food_fields [OF e])
  then show ?thesis by blast
qed

theorem enemy_check_after_moves_witness:
  "\<exists>g'. update ((demo_game \<lparr>pos_x = 3, pos_y = 3\<rparr>)
             \<lparr>spawn_enemies := True, enemies := [demo_enemy \<lparr>pos_x = 21, pos_y = 15\<rparr>]\<rparr>) demo_env =
          Some (Inr g') \<and> hd (body (snake g')) = \<lparr>pos_x = 21, pos_y = 15\<rparr> \<and> \<not> game_over g'"
proof -
  let ?g = "(demo_game \<lparr>pos_x = 3, pos_y = 3\<rparr>)
             \<lparr>spawn_enemies := True, enemies := [demo_enemy \<lparr>pos_x = 21, pos_y = 15\<rparr>]\<rparr>"
  let ?s1 = "(Snake_init \<lparr>pos_x = 20, pos_y = 15\<rparr>)
            \<lparr>body := [\<lparr>pos_x = 21, pos_y = 15\<rparr>, \<lparr>pos_x = 20, pos_y = 15\<rparr>]\<rparr>"
  let ?h = "\<lparr>pos_x = 21, pos_y = 15\<rparr>"
  let ?g' = "(demo_game \<lparr>pos_x = 3, pos_y = 3\<rparr>)
             \<lparr>spawn_enemies := True, enemies := [demo_enemy \<lparr>pos_x = 21, pos_y = 15\<rparr>],
              snake := ?s1,
              enemies := [(demo_enemy \<lparr>pos_x = 21, pos_y = 15\<rparr>)
                            \<lparr>position := \<lparr>pos_x = 21, pos_y = 14\<rparr>, move_cooldown := 2\<rparr>]\<rparr>"
  have m: "move (snake ?g) = Inr ?s1" using demo_move by (simp add: demo_game_def)
  have b: "body ?s1 = ?h # [\<lparr>pos_x = 20, pos_y = 15\<rparr>]" by simp
  have b': "body (snake (?g\<lparr>snake := ?s1\<rparr>)) = ?h # [\<lparr>pos_x = 20, pos_y = 15\<rparr>]" by simp
  have c: "check_collision (?g\<lparr>snake := ?s1\<rparr>) = Inr False"
    unfolding check_collision_iff [OF b'] by (simp add: demo_game_def)
  have u: "update ?g demo_env = Some (Inr ?g')" by (rule demo_chase_game_update)
  have pre: "\<not> game_over ?g \<and> ?h \<in> position ` set (enemies ?g) \<and> ?h \<notin> position ` set (enemies ?g')"
    by (simp add: demo_game_def demo_enemy_def Enemy_init_def)
  from enemy_check_after_moves [OF m b c u] pre have "\<not> game_over ?g'" by blast
  moreover have "hd (body (snake ?g')) = ?h" by simp
  ultimately show ?thesis using u by blast
qed

section \<open>Food placement\<close>

text \<open>
  Claim C6. Every food item that \<open>generate_food\<close> returns lies on no cell of the snake's
  body, on no wall and on no enemy. The generator returns as soon as one attempt draws a free
  cell; and whenever the grid has a free cell, the draws that hit this cell make the
  generator return the food there. (With draws that never hit a free cell the loop does not
  return at all.)
\<close>

theorem food_cell_is_free:
  "(generate_food g env = Some (Inr f) \<longrightarrow>
      f_position f \<notin> set (body (snake g)) \<and>
      (pos_x (f_position f), pos_y (f_position f)) \<notin> set (walls g) \<and>
      f_position f \<notin> position ` set (enemies g)) \<and>
   (0 < grid_width g \<and> 0 < grid_height g \<and>
    \<not> cell_taken (body (snake g)) (walls g) (enemies g)
         (attempt_cell (grid_width g) (grid_height g) env k)
      \<longrightarrow> (\<exists>f'. generate_food g env = Some (Inr f'))) \<and>
   (0 \<le> pos_x c \<and> pos_x c < grid_width g \<and> 0 \<le> pos_y c \<and> pos_y c < grid_height g \<and>
    c \<notin> set (body (snake g)) \<and> (pos_x c, pos_y c) \<notin> set (walls g) \<and>
    c \<notin> position ` set (enemies g)
      \<longrightarrow> (\<exists>f'. generate_food g (env\<lparr>rand_cells := \<lambda>i. (pos_x c, pos_y c)\<rparr>) = Some (Inr f') \<and>
                f_position f' = c))"
proof (intro conjI impI)
  assume "generate_food g env = Some (Inr f)"
  from gen_loop_sound [OF this [unfolded generate_food_def]]
  have "\<not> cell_taken (body (snake g)) (walls g) (enemies g) (f_position f)" by simp
  then show "f_position f \<notin> set (body (snake g))"
    and "(pos_x (f_position f), pos_y (f_position f)) \<notin> set (walls g)"
    and "f_position f \<notin> position ` set (enemies g)"
    by (simp_all add: cell_taken_iff)
next
  assume a: "0 < grid_width g \<and> 0 < grid_height g \<and>
    \<not> cell_taken (body (snake g)) (walls g) (enemies g)
         (attempt_cell (grid_width g) (grid_height g) env k)"
  then have "0 < grid_width g" "0 < grid_height g"
    "\<not> cell_taken (body (snake g)) (walls g) (enemies g)
         (attempt_cell (grid_width g) (grid_height g) env k)" by simp_all
  from gen_loop_returns [OF this, of 0]
  show "\<exists>f'. generate_food g env = Some (Inr f')"
    unfolding generate_food_def by blast
next
  let ?env = "env\<lparr>rand_cells := \<lambda>i. (pos_x c, pos_y c)\<rparr>"
  assume a: "0 \<le> pos_x c \<and> pos_x c < grid_width g \<and> 0 \<le> pos_y c \<and> pos_y c < grid_height g \<and>
    c \<notin> set (body (snake g)) \<and> (pos_x c, pos_y c) \<notin> set (walls g) \<and>
    c \<notin> position ` set (enemies g)"
  then have pos: "0 < grid_width g" "0 < grid_height g" by simp_all
  have cell: "attempt_cell (grid_width g) (grid_height g) ?env 0 = c"
    using a by (simp add: attempt_cell_def)
  have free: "\<not> cell_taken (body (snake g)) (walls g) (enemies g) c"
    using a by (simp add: cell_taken_iff)
  have "generate_food g ?env = Some (Inr (new_food c (rand_roll ?env) (ticks_spawn ?env)))"
    unfolding generate_food_def
    by (subst gen_loop_step [OF pos]) (simp only: cell free if_True not_False_eq_True)
  then show "\<exists>f'. generate_food g ?env = Some (Inr f') \<and> f_position f' = c"
    by (simp add: new_food_position)
qed

theorem food_cell_is_free_witness:
  "\<exists>f. generate_food (demo_game \<lparr>pos_x = 21, pos_y = 15\<rparr>)
          (demo_env\<lparr>rand_cells := \<lambda>i. (int i + 19, 15)\<rparr>) = Some (Inr f) \<and>
       f_position f \<notin> set [\<lparr>pos_x = 20, pos_y = 15\<rparr>, \<lparr>pos_x = 19, pos_y = 15\<rparr>]"
proof -
  let ?g = "demo_game \<lparr>pos_x = 21, pos_y = 15\<rparr>"
  let ?env = "demo_env\<lparr>rand_cells := \<lambda>i. (int i + 19, 15)\<rparr>"
  have c: "attempt_cell (grid_width ?g) (grid_height ?g) ?env 2 = \<lparr>pos_x = 21, pos_y = 15\<rparr>"
    by (simp add: attempt_cell_def demo_game_def)
  have h: "0 < grid_width ?g \<and> 0 < grid_height ?g \<and>
    \<not> cell_taken (body (snake ?g)) (walls ?g) (enemies ?g)
         (attempt_cell (grid_width ?g) (grid_height ?g) ?env 2)"
    unfolding c by (simp add: cell_taken_iff demo_game_def Snake_init_def)
  from food_cell_is_free [of ?g ?env _ 2] h obtain f where
    f: "generate_food ?g ?env = Some (Inr f)" by blast
  with food_cell_is_free [of ?g ?env f] have "f_position f \<notin> set (body (snake ?g))" by blast
  then have "f_position f \<notin> set [\<lparr>pos_x = 20, pos_y = 15\<rparr>, \<lparr>pos_x = 19, pos_y = 15\<rparr>]"
    by (simp add: demo_game_def Snake_init_def)
  with f show ?thesis by blast
qed

section \<open>Eating food\<close>

lemma eat_food_hit:
  assumes "h = f_position (food g)"
    and "generate_food (g\<lparr>score := score g + f_value (food g), snake := grow (snake g)\<rparr>) env = Some (Inr f)"
  shows "eat_food g h env =
           Some (Inr (g\<lparr>score := score g + f_value (food g), snake := grow (snake g), food := f\<rparr>))"
  using assms by (simp add: eat_food_def Let_def)

lemma move_grown:
  assumes "body s = h # rest"
  shows "move (grow s) = Inr (s\<lparr>body := new_head_of (direction s) h # h # rest, growth_pending := False\<rparr>)"
  using assms by (simp add: move_def grow_def)

text \<open>
  The tick in which the snake of length 2 eats regular food worth 10 at score 0: the score
  becomes 10 and the growth flag is set, but the body still has 2 cells, not 3.
\<close>

theorem eat_food_length_counterexample:
  "update (demo_game \<lparr>pos_x = 21, pos_y = 15\<rparr>) demo_env =
     Some (Inr ((demo_game \<lparr>pos_x = 21, pos_y = 15\<rparr>)
       \<lparr>score := 10,
        snake := \<lparr>body = [\<lparr>pos_x = 21, pos_y = 15\<rparr>, \<lparr>pos_x = 20, pos_y = 15\<rparr>],
                  direction = ''RIGHT'', growth_pending = True,
                  head_color = WHITE, body_color = BLACK\<rparr>,
        food := new_food \<lparr>pos_x = 3, pos_y = 3\<rparr> (1 / 2) 0\<rparr>)) \<and>
   f_position (food (demo_game \<lparr>pos_x = 21, pos_y = 15\<rparr>)) = \<lparr>pos_x = 21, pos_y = 15\<rparr> \<and>
   f_type (food (demo_game \<lparr>pos_x = 21, pos_y = 15\<rparr>)) = REGULAR \<and>
   f_value (food (demo_game \<lparr>pos_x = 21, pos_y = 15\<rparr>)) = 10 \<and>
   score (demo_game \<lparr>pos_x = 21, pos_y = 15\<rparr>) = 0 \<and>
   length (body (snake (demo_game \<lparr>pos_x = 21, pos_y = 15\<rparr>))) = 2 \<and>
   length [\<lparr>pos_x = 21, pos_y = 15\<rparr>, \<lparr>pos_x = 20, pos_y = 15\<rparr>] \<noteq> 2 + 1"
proof -
  let ?g = "demo_game \<lparr>pos_x = 21, pos_y = 15\<rparr>"
  let ?s1 = "(Snake_init \<lparr>pos_x = 20, pos_y = 15\<rparr>)
            \<lparr>body := [\<lparr>pos_x = 21, pos_y = 15\<rparr>, \<lparr>pos_x = 20, pos_y = 15\<rparr>]\<rparr>"
  let ?h = "\<lparr>pos_x = 21, pos_y = 15\<rparr>"
  let ?g1 = "?g\<lparr>snake := ?s1\<rparr>"
  let ?g2 = "?g1\<lparr>score := score ?g1 + f_value (food ?g1), snake := grow (snake ?g1)\<rparr>"
  let ?f = "new_food \<lparr>pos_x = 3, pos_y = 3\<rparr> (1 / 2) 0"
  have m: "move (snake ?g) = Inr ?s1" using demo_move by (simp add: demo_game_def)
  have b: "body ?s1 = ?h # [\<lparr>pos_x = 20, pos_y = 15\<rparr>]" by simp
  have b': "body (snake ?g1) = ?h # [\<lparr>pos_x = 20, pos_y = 15\<rparr>]" by simp
  have c: "check_collision ?g1 = Inr False"
    unfolding check_collision_iff [OF b'] by (simp add: demo_game_def)
  have fp: "?h = f_position (food ?g1)" by (simp add: demo_game_def new_food_position)
  have gf: "generate_food ?g2 demo_env = Some (Inr ?f)"
    unfolding generate_food_def
    by (subst gen_loop_step)
       (simp_all add: demo_game_def demo_env_def attempt_cell_def cell_taken_iff grow_def)
  note e = eat_food_hit [OF fp gf]
  have fl: "update_flash (?g2\<lparr>food := ?f\<rparr>) demo_env = ?g2\<lparr>food := ?f\<rparr>"
    by (simp add: update_flash_def demo_game_def demo_env_def)
  have ue: "update_enemies (?g2\<lparr>food := ?f\<rparr>) ?h = ?g2\<lparr>food := ?f\<rparr>"
    by (simp add: update_enemies_def demo_game_def)
  have u: "update ?g demo_env = Some (Inr (?g2\<lparr>food := ?f\<rparr>))"
    unfolding update_alive [OF m c b] e by (simp only: option.case sum.case fl ue)
  have eq: "?g2\<lparr>food := ?f\<rparr> = ?g
       \<lparr>score := 10,
        snake := \<lparr>body = [\<lparr>pos_x = 21, pos_y = 15\<rparr>, \<lparr>pos_x = 20, pos_y = 15\<rparr>],
                  direction = ''RIGHT'', growth_pending = True,
                  head_color = WHITE, body_color = BLACK\<rparr>,
        food := ?f\<rparr>"
    by (simp add: demo_game_def new_food_def grow_def Snake_init_def)
  show ?thesis
    unfolding u eq by (simp add: demo_game_def new_food_def Snake_init_def)
qed

text \<open>
  Claim C7, amended. In a tick without a collision against the grid or the snake itself in
  which the head moves onto the food, the food being worth 10 and the score 0, and some
  attempt of the generator draws a free cell: \<open>update\<close> returns, the score is 10, the growth
  flag is set and the body is the advanced one, so that its length is the length before the
  tick, plus one only if growth was already pending before the tick. The new food lies on no
  cell of that body. The body becomes one cell longer at the next advance, and the new food
  lies on no cell after the head of the longer body.
\<close>

theorem eat_food_then_grow:
  assumes "move (snake g) = Inr s1" and "body s1 = nh # others"
    and "check_collision (g\<lparr>snake := s1\<rparr>) = Inr False"
    and "nh = f_position (food g)" and "f_value (food g) = 10" and "score g = 0"
    and "\<not> cell_taken (body s1) (walls g) (enemies g)
            (attempt_cell (grid_width g) (grid_height g) env k)"
  shows "\<exists>g' s2. update g env = Some (Inr g') \<and> score g' = 10 \<and> growth_pending (snake g') \<and>
           body (snake g') = body s1 \<and>
           length (body (snake g')) =
             length (body (snake g)) + (if growth_pending (snake g) then 1 else 0) \<and>
           f_position (food g') \<notin> set (body (snake g')) \<and>
           move (snake g') = Inr s2 \<and> length (body s2) = length (body (snake g')) + 1 \<and>
           f_position (food g') \<notin> set (tl (body s2))"
proof -
  let ?g1 = "g\<lparr>snake := s1\<rparr>"
  let ?g2 = "?g1\<lparr>score := score ?g1 + f_value (food ?g1), snake := grow (snake ?g1)\<rparr>"
  have b': "body (snake ?g1) = nh # others" using assms(2) by simp
  from assms(3) [unfolded check_collision_iff [OF b']]
  have pos: "0 < grid_width g" "0 < grid_height g" by auto
  from gen_loop_returns [OF pos assms(7), of 0] obtain j where
    j: "\<not> cell_taken (body s1) (walls g) (enemies g) (attempt_cell (grid_width g) (grid_height g) env j)"
       "generate_food_loop (grid_width g) (grid_height g) (body s1) (walls g) (enemies g) env 0 =
          Some (Inr (new_food (attempt_cell (grid_width g) (grid_height g) env j)
                       (rand_roll env) (ticks_spawn env)))"
    by blast
  let ?f = "new_food (attempt_cell (grid_width g) (grid_height g) env j) (rand_roll env) (ticks_spawn env)"
  have gf: "generate_food ?g2 env = Some (Inr ?f)"
    using j(2) by (simp add: generate_food_def grow_def)
  have fp: "nh = f_position (food ?g1)" using assms(4) by simp
  note e = eat_food_hit [OF fp gf]
  let ?g' = "update_enemies (update_flash (?g2\<lparr>food := ?f\<rparr>) env) nh"
  have u: "update g env = Some (Inr ?g')"
    unfolding update_alive [OF assms(1,3,2)] e by (simp only: option.case sum.case)
  have sc: "score ?g' = 10"
    using assms(5,6) by (simp add: update_enemies_fields update_flash_fields)
  have sn: "snake ?g' = grow s1"
    by (simp add: update_enemies_fields update_flash_fields)
  have fo: "f_position (food ?g') = attempt_cell (grid_width g) (grid_height g) env j"
    by (simp add: update_enemies_fields update_flash_fields new_food_position)
  have nb: "f_position (food ?g') \<notin> set (body s1)"
    unfolding fo using j(1) by (simp add: cell_taken_iff)
  from move_body [OF assms(1)] have len: "length (body s1) =
      length (body (snake g)) + (if growth_pending (snake g) then 1 else 0)"
    by auto
  let ?s2 = "s1\<lparr>body := new_head_of (direction s1) nh # nh # others, growth_pending := False\<rparr>"
  have mv: "move (grow s1) = Inr ?s2" by (rule move_grown [OF assms(2)])
  have l2: "length (body ?s2) = length (body s1) + 1" using assms(2) by simp
  have t2: "tl (body ?s2) = body s1" using assms(2) by simp
  show ?thesis
    apply (rule exI [of _ ?g'], rule exI [of _ ?s2])
    unfolding sn
    using u sc nb len mv l2 t2 fo by (simp add: grow_def)
qed

theorem eat_food_then_grow_witness:
  "\<exists>g' s2. update (demo_game \<lparr>pos_x = 21, pos_y = 15\<rparr>) demo_env = Some (Inr g') \<and>
     score g' = 10 \<and> growth_pending (snake g') \<and> length (body (snake g')) = 2 \<and>
     move (snake g') = Inr s2 \<and> length (body s2) = 3"
proof -
  let ?g = "demo_game \<lparr>pos_x = 21, pos_y = 15\<rparr>"
  let ?s1 = "(Snake_init \<lparr>pos_x = 20, pos_y = 15\<rparr>)
            \<lparr>body := [\<lparr>pos_x = 21, pos_y = 15\<rparr>, \<lparr>pos_x = 20, pos_y = 15\<rparr>]\<rparr>"
  let ?h = "\<lparr>pos_x = 21, pos_y = 15\<rparr>"
  have m: "move (snake ?g) = Inr ?s1" using demo_move by (simp add: demo_game_def)
  have b: "body ?s1 = ?h # [\<lparr>pos_x = 20, pos_y = 15\<rparr>]" by simp
  have b': "body (snake (?g\<lparr>snake := ?s1\<rparr>)) = ?h # [\<lparr>pos_x = 20, pos_y = 15\<rparr>]" by simp
  have c: "check_collision (?g\<lparr>snake := ?s1\<rparr>) = Inr False"
    unfolding check_collision_iff [OF b'] by (simp add: demo_game_def)
  have fp: "?h = f_position (food ?g)" by (simp add: demo_game_def new_food_position)
  have v: "f_value (food ?g) = 10" by (simp add: demo_game_def new_food_def)
  have z: "score ?g = 0" by (simp add: demo_game_def)
  have d: "\<not> cell_taken (body ?s1) (walls ?g) (enemies ?g)
            (attempt_cell (grid_width ?g) (grid_height ?g) demo_env 0)"
    by (simp add: cell_taken_iff attempt_cell_def demo_game_def demo_env_def)
  from eat_food_then_grow [OF m b c fp v z d] obtain g' s2 where
    r: "update ?g demo_env = Some (Inr g')" "score g' = 10" "growth_pending (snake g')"
       "body (snake g') = body ?s1" "move (snake g') = Inr s2"
       "length (body s2) = length (body (snake g')) + 1"
    by blast
  from r(4) have l: "length (body (snake g')) = 2" by simp
  with r(6) have "length (body s2) = 3" by simp
  with r(1,2,3,5) l show ?thesis by blast
qed

section \<open>After the game is over\<close>

lemma update_cases:
  assumes "update g env = Some (Inr g')"
  shows "\<exists>s1. move (snake g) = Inr s1 \<and>
           (g' = set_game_over (g\<lparr>snake := s1\<rparr>) \<or>
            (\<exists>nh g2. eat_food (g\<lparr>snake := s1\<rparr>) nh env = Some (Inr g2) \<and>
                      g' = update_enemies (update_flash g2 env) nh))"
proof (cases "move (snake g)")
  case (Inl err)
  with assms show ?thesis by (simp add: update_def)
next
  case (Inr s1)
  from move_body [OF Inr] obtain nh others where b: "body s1 = nh # others" by blast
  then have b': "body (snake (g\<lparr>snake := s1\<rparr>)) = nh # others" by simp
  show ?thesis
  proof (cases "check_collision (g\<lparr>snake := s1\<rparr>) = Inr True")
    case True
    from assms [unfolded update_hit [OF Inr True]] have "g' = set_game_over (g\<lparr>snake := s1\<rparr>)"
      by simp
    with Inr show ?thesis by blast
  next
    case False
    then have c: "check_collision (g\<lparr>snake := s1\<rparr>) = Inr False"
      unfolding check_collision_iff [OF b'] by simp
    from assms [unfolded update_alive [OF Inr c b]]
    obtain g2 where "eat_food (g\<lparr>snake := s1\<rparr>) nh env = Some (Inr g2)"
      "g' = update_enemies (update_flash g2 env) nh"
      by (auto split: option.splits sum.splits)
    with Inr show ?thesis by blast
  qed
qed

lemma update_keeps_game_over:
  assumes "update g env = Some (Inr g')" and "game_over g"
  shows "game_over g'"
proof -
  from update_cases [OF assms(1)] obtain s1 where
    d: "g' = set_game_over (g\<lparr>snake := s1\<rparr>) \<or>
        (\<exists>nh g2. eat_food (g\<lparr>snake := s1\<rparr>) nh env = Some (Inr g2) \<and>
                  g' = update_enemies (update_flash g2 env) nh)" by blast
  then show ?thesis
  proof
    assume "g' = set_game_over (g\<lparr>snake := s1\<rparr>)"
    then show ?thesis by (simp add: set_game_over_fields)
  next
    assume "\<exists>nh g2. eat_food (g\<lparr>snake := s1\<rparr>) nh env = Some (Inr g2) \<and>
                  g' = update_enemies (update_flash g2 env) nh"
    then obtain nh g2 where e: "eat_food (g\<lparr>snake := s1\<rparr>) nh env = Some (Inr g2)"
      and g': "g' = update_enemies (update_flash g2 env) nh" by blast
    have "game_over (update_flash g2 env)"
      using assms(2) by (simp add: update_flash_fields eat_food_fields [OF e])
    then show ?thesis unfolding g' by (subst update_enemies_game_over) simp
  qed
qed

lemma update_keeps_grid:
  assumes "update g env = Some (Inr g')"
  shows "walls g' = walls g \<and> grid_width g' = grid_width g \<and> grid_height g' = grid_height g"
proof -
  from update_cases [OF assms] obtain s1 where
    d: "g' = set_game_over (g\<lparr>snake := s1\<rparr>) \<or>
        (\<exists>nh g2. eat_food (g\<lparr>snake := s1\<rparr>) nh env = Some (Inr g2) \<and>
                  g' = update_enemies (update_flash g2 env) nh)" by blast
  then show ?thesis
  proof
    assume "g' = set_game_over (g\<lparr>snake := s1\<rparr>)"
    then show ?thesis by (simp add: set_game_over_fields)
  next
    assume "\<exists>nh g2. eat_food (g\<lparr>snake := s1\<rparr>) nh env = Some (Inr g2) \<and>
                  g' = update_enemies (update_flash g2 env) nh"
    then obtain nh g2 where e: "eat_food (g\<lparr>snake := s1\<rparr>) nh env = Some (Inr g2)"
      and g': "g' = update_enemies (update_flash g2 env) nh" by blast
    show ?thesis unfolding g'
      by (simp add: update_enemies_fields update_flash_fields eat_food_fields [OF e])
  qed
qed

text \<open>
  \<open>update\<close> does not look at the terminal flag: on the game that is over, with the food
  right ahead of the snake, it advances the snake and raises the score.
\<close>

theorem update_after_game_over_counterexample:
  "game_over ((demo_game \<lparr>pos_x = 21, pos_y = 15\<rparr>)\<lparr>game_over := True\<rparr>) \<and>
   update ((demo_game \<lparr>pos_x = 21, pos_y = 15\<rparr>)\<lparr>game_over := True\<rparr>) demo_env =
     Some (Inr ((demo_game \<lparr>pos_x = 21, pos_y = 15\<rparr>)
       \<lparr>game_over := True, score := 10,
        snake := \<lparr>body = [\<lparr>pos_x = 21, pos_y = 15\<rparr>, \<lparr>pos_x = 20, pos_y = 15\<rparr>],
                  direction = ''RIGHT'', growth_pending = True,
                  head_color = WHITE, body_color = BLACK\<rparr>,
        food := new_food \<lparr>pos_x = 3, pos_y = 3\<rparr> (1 / 2) 0\<rparr>)) \<and>
   score ((demo_game \<lparr>pos_x = 21, pos_y = 15\<rparr>)\<lparr>game_over := True\<rparr>) = 0 \<and>
   body (snake ((demo_game \<lparr>pos_x = 21, pos_y = 15\<rparr>)\<lparr>game_over := True\<rparr>)) =
     [\<lparr>pos_x = 20, pos_y = 15\<rparr>, \<lparr>pos_x = 19, pos_y = 15\<rparr>]"
proof -
  let ?g = "(demo_game \<lparr>pos_x = 21, pos_y = 15\<rparr>)\<lparr>game_over := True\<rparr>"
  let ?s1 = "(Snake_init \<lparr>pos_x = 20, pos_y = 15\<rparr>)
            \<lparr>body := [\<lparr>pos_x = 21, pos_y = 15\<rparr>, \<lparr>pos_x = 20, pos_y = 15\<rparr>]\<rparr>"
  let ?h = "\<lparr>pos_x = 21, pos_y = 15\<rparr>"
  let ?g1 = "?g\<lparr>snake := ?s1\<rparr>"
  let ?g2 = "?g1\<lparr>score := score ?g1 + f_value (food ?g1), snake := grow (snake ?g1)\<rparr>"
  let ?f = "new_food \<lparr>pos_x = 3, pos_y = 3\<rparr> (1 / 2) 0"
  have m: "move (snake ?g) = Inr ?s1" using demo_move by (simp add: demo_game_def)
  have b: "body ?s1 = ?h # [\<lparr>pos_x = 20, pos_y = 15\<rparr>]" by simp
  have b': "body (snake ?g1) = ?h # [\<lparr>pos_x = 20, pos_y = 15\<rparr>]" by simp
  have c: "check_collision ?g1 = Inr False"
    unfolding check_collision_iff [OF b'] by (simp add: demo_game_def)
  have fp: "?h = f_position (food ?g1)" by (simp add: demo_game_def new_food_position)
  have gf: "generate_food ?g2 demo_env = Some (Inr ?f)"
    unfolding generate_food_def
    by (subst gen_loop_step)
       (simp_all add: demo_game_def demo_env_def attempt_cell_def cell_taken_iff grow_def)
  note e = eat_food_hit [OF fp gf]
  have fl: "update_flash (?g2\<lparr>food := ?f\<rparr>) demo_env = ?g2\<lparr>food := ?f\<rparr>"
    by (simp add: update_flash_def demo_game_def demo_env_def)
  have ue: "update_enemies (?g2\<lparr>food := ?f\<rparr>) ?h = ?g2\<lparr>food := ?f\<rparr>"
    by (simp add: update_enemies_def demo_game_def)
  have u: "update ?g demo_env = Some (Inr (?g2\<lparr>food := ?f\<rparr>))"
    unfolding update_alive [OF m c b] e by (simp only: option.case sum.case fl ue)
  have eq: "?g2\<lparr>food := ?f\<rparr> = (demo_game \<lparr>pos_x = 21, pos_y = 15\<rparr>)
       \<lparr>game_over := True, score := 10,
        snake := \<lparr>body = [\<lparr>pos_x = 21, pos_y = 15\<rparr>, \<lparr>pos_x = 20, pos_y = 15\<rparr>],
                  direction = ''RIGHT'', growth_pending = True,
                  head_color = WHITE, body_color = BLACK\<rparr>,
        food := ?f\<rparr>"
    by (simp add: demo_game_def new_food_def grow_def Snake_init_def)
  show ?thesis
    unfolding u eq by (simp add: demo_game_def Snake_init_def)
qed

text \<open>
  Claim C2, amended. The terminal state is absorbing for the main loop: on a game whose
  terminal flag is set, the loop of \<open>run\<close> makes no further tick and leaves the game
  unchanged; once the game-over screen is left with the space key, \<open>run\<close> reports the score
  of that unchanged game. And a tick never clears the flag.
\<close>

theorem run_loop_game_over:
  assumes "game_over g"
  shows "run_loop inputs i g = Some (Inr g) \<and>
         (show_game_over batches 0 = Some (Inr ()) \<longrightarrow>
            run_main inputs batches g = Some (Inr (g, score g))) \<and>
         (update g env = Some (Inr g') \<longrightarrow> game_over g')"
proof (intro conjI impI)
  show l: "run_loop inputs i g = Some (Inr g)" for i
    using assms by (subst run_loop.simps) simp
  show "run_main inputs batches g = Some (Inr (g, score g))"
    if "show_game_over batches 0 = Some (Inr ())"
    using that by (simp add: run_main_def l)
  show "game_over g'" if "update g env = Some (Inr g')"
    using that assms by (rule update_keeps_game_over)
qed

theorem run_loop_game_over_witness:
  "run_main (\<lambda>i. ([KEYDOWN K_UP], demo_env)) (\<lambda>i. [KEYDOWN K_SPACE])
     ((demo_game \<lparr>pos_x = 21, pos_y = 15\<rparr>)\<lparr>game_over := True\<rparr>)
     = Some (Inr ((demo_game \<lparr>pos_x = 21, pos_y = 15\<rparr>)\<lparr>game_over := True\<rparr>, 0))"
proof -
  let ?g = "(demo_game \<lparr>pos_x = 21, pos_y = 15\<rparr>)\<lparr>game_over := True\<rparr>"
  have h: "game_over ?g" by simp
  have s: "show_game_over (\<lambda>i. [KEYDOWN K_SPACE]) 0 = Some (Inr ())"
    by (subst show_game_over.simps) simp
  have "score ?g = 0" by (simp add: demo_game_def)
  with run_loop_game_over [OF h, of "\<lambda>i. ([KEYDOWN K_UP], demo_env)" 0 "\<lambda>i. [KEYDOWN K_SPACE]"] s
  show ?thesis by simp
qed

section \<open>The layouts and the grid\<close>

lemma lookup_layout_BASIC: "lookup_layout ''BASIC'' = Inr []"
  by (simp add: lookup_layout_def MAP_LAYOUTS_def)

lemma lookup_layout_MAZE: "lookup_layout ''MAZE'' = Inr MAZE"
  by (simp add: lookup_layout_def MAP_LAYOUTS_def)

lemma lookup_layout_cases:
  assumes "lookup_layout style = Inr ws"
  shows "(style = ''BASIC'' \<and> ws = []) \<or> (style = ''MAZE'' \<and> ws = MAZE)"
proof (cases "style = ''MAZE''")
  case True
  with assms lookup_layout_MAZE show ?thesis by simp
next
  case False
  show ?thesis
  proof (cases "style = ''BASIC''")
    case True
    with assms lookup_layout_BASIC show ?thesis by simp
  next
    case nb: False
    with False assms show ?thesis by (simp add: lookup_layout_def MAP_LAYOUTS_def)
  qed
qed

lemma MAZE_bounds: "c \<in> set MAZE \<Longrightarrow> 5 \<le> fst c \<and> fst c \<le> 35 \<and> 5 \<le> snd c \<and> snd c \<le> 25"
  unfolding MAZE_def range2_def range3_def set_append Un_iff set_map set_upto image_iff
  by (elim disjE bexE; simp; auto)

lemma MAZE_corner: "(35, 5) \<in> set MAZE"
  unfolding MAZE_def range2_def by simp

lemma Game_init_value:
  assumes "Game_init w h hs env = Some (Inr g)"
  shows "grid_width g = w div 20 \<and> grid_height g = h div 20 \<and> walls g = []"
proof -
  from assms obtain f where
    "g = \<lparr>width = w, height = h, cell_size = 20, grid_width = w div 20,
          grid_height = h div 20, score = 0, high_score = hs,
          difficulty = ''EASY'', map_style = ''BASIC'', walls = [],
          enemies = [], enemy_count = 0, spawn_enemies = False,
          snake = Snake_init \<lparr>pos_x = w div 20 div 2, pos_y = h div 20 div 2\<rparr>, food = f,
          game_over = False, last_update_time = ticks_now env, food_flash_interval = 500\<rparr>"
    unfolding Game_init_def Let_def lookup_layout_BASIC
    by (auto split: option.splits sum.splits)
  then show ?thesis by simp
qed

lemma start_game_value:
  assumes "start_game w h diff style spawn cnt hs env = Some (Inr g)"
  shows "grid_width g = w div 20 \<and> grid_height g = h div 20 \<and> lookup_layout style = Inr (walls g)"
proof -
  from assms obtain g0 ws where g0: "Game_init w h hs env = Some (Inr g0)"
    and ws: "lookup_layout style = Inr ws"
    and g: "g = g0\<lparr>difficulty := diff, map_style := style, walls := ws,
                    spawn_enemies := spawn, enemy_count := cnt\<rparr>"
    unfolding start_game_def by (auto split: option.splits sum.splits)
  from Game_init_value [OF g0] show ?thesis unfolding g using ws by simp
qed

lemma small_maze_game_started:
  "start_game 400 300 ''EASY'' ''MAZE'' False 0 0 demo_env = Some (Inr small_maze_game)"
proof -
  have f: "generate_food_loop 20 15 (body (Snake_init \<lparr>pos_x = 10, pos_y = 7\<rparr>)) [] [] demo_env 0 =
      Some (Inr (new_food \<lparr>pos_x = 3, pos_y = 3\<rparr> (1 / 2) 0))"
    by (subst gen_loop_step)
       (simp_all add: demo_env_def attempt_cell_def cell_taken_iff Snake_init_def)
  have i: "Game_init 400 300 0 demo_env =
      Some (Inr \<lparr>width = 400, height = 300, cell_size = 20, grid_width = 20, grid_height = 15,
        score = 0, high_score = 0, difficulty = ''EASY'', map_style = ''BASIC'', walls = [],
        enemies = [], enemy_count = 0, spawn_enemies = False,
        snake = Snake_init \<lparr>pos_x = 10, pos_y = 7\<rparr>,
        food = new_food \<lparr>pos_x = 3, pos_y = 3\<rparr> (1 / 2) 0,
        game_over = False, last_update_time = 0, food_flash_interval = 500\<rparr>)"
    unfolding Game_init_def Let_def lookup_layout_BASIC
    by (simp add: f) (simp add: demo_env_def)
  show ?thesis
    unfolding start_game_def i lookup_layout_MAZE by (simp add: small_maze_game_def)
qed

text \<open>
  The maze layout on the grid of 20 by 15 cells: the wall cell (35, 5) is outside the grid.
\<close>

theorem maze_outside_grid_counterexample:
  "start_game 400 300 ''EASY'' ''MAZE'' False 0 0 demo_env = Some (Inr small_maze_game) \<and>
   grid_width small_maze_game = 20 \<and> grid_height small_maze_game = 15 \<and>
   (35, 5) \<in> set (walls small_maze_game) \<and> \<not> 35 < grid_width small_maze_game"
  using small_maze_game_started MAZE_corner by (simp add: small_maze_game_def)

text \<open>
  Claim C9, amended. In a game started from the menu the grid has \<open>width div 20\<close> columns and
  \<open>height div 20\<close> rows and the walls are those of the chosen layout. Every wall cell lies
  inside the grid when the layout is the basic one (which has no wall) or the grid has at
  least 36 columns and 26 rows, as the default grid of 40 by 30 has; the cells of the maze
  are constants that do not follow the grid's size. A tick changes neither the walls nor the
  grid's size.
\<close>

theorem layout_within_grid:
  assumes "start_game w h diff style spawn cnt hs env = Some (Inr g)"
  shows "grid_width g = w div 20 \<and> grid_height g = h div 20 \<and>
         MAP_LAYOUTS style = Some (walls g) \<and>
         (style = ''BASIC'' \<or> (36 \<le> grid_width g \<and> 26 \<le> grid_height g) \<longrightarrow>
            (\<forall>c\<in>set (walls g). 0 \<le> fst c \<and> fst c < grid_width g \<and>
                                 0 \<le> snd c \<and> snd c < grid_height g)) \<and>
         (update g env' = Some (Inr g') \<longrightarrow>
            walls g' = walls g \<and> grid_width g' = grid_width g \<and> grid_height g' = grid_height g)"
proof -
  note v = start_game_value [OF assms]
  from v have l: "lookup_layout style = Inr (walls g)" by simp
  then have ml: "MAP_LAYOUTS style = Some (walls g)"
    by (simp add: lookup_layout_def split: option.splits)
  have inb: "style = ''BASIC'' \<or> (36 \<le> grid_width g \<and> 26 \<le> grid_height g) \<longrightarrow>
            (\<forall>c\<in>set (walls g). 0 \<le> fst c \<and> fst c < grid_width g \<and>
                                 0 \<le> snd c \<and> snd c < grid_height g)"
  proof (intro impI ballI)
    fix c
    assume a: "style = ''BASIC'' \<or> (36 \<le> grid_width g \<and> 26 \<le> grid_height g)"
      and c: "c \<in> set (walls g)"
    from lookup_layout_cases [OF l] c have m: "style = ''MAZE''" "walls g = MAZE" by auto
    with a have big: "36 \<le> grid_width g" "26 \<le> grid_height g" by simp_all
    from MAZE_bounds [of c] c m(2) have "5 \<le> fst c \<and> fst c \<le> 35 \<and> 5 \<le> snd c \<and> snd c \<le> 25"
      by simp
    with big show "0 \<le> fst c \<and> fst c < grid_width g \<and> 0 \<le> snd c \<and> snd c < grid_height g"
      by simp
  qed
  have upd: "update g env' = Some (Inr g') \<longrightarrow>
            walls g' = walls g \<and> grid_width g' = grid_width g \<and> grid_height g' = grid_height g"
    using update_keeps_grid by blast
  from v ml inb upd show ?thesis by blast
qed

lemma default_maze_game_started:
  "start_game 800 600 ''EASY'' ''MAZE'' False 0 0 demo_env =
     Some (Inr ((demo_game \<lparr>pos_x = 3, pos_y = 3\<rparr>)
                  \<lparr>difficulty := ''EASY'', map_style := ''MAZE'', walls := MAZE,
                   spawn_enemies := False, enemy_count := 0\<rparr>))"
proof -
  have f: "generate_food_loop 40 30 (body (Snake_init \<lparr>pos_x = 20, pos_y = 15\<rparr>)) [] [] demo_env 0 =
      Some (Inr (new_food \<lparr>pos_x = 3, pos_y = 3\<rparr> (1 / 2) 0))"
    by (subst gen_loop_step)
       (simp_all add: demo_env_def attempt_cell_def cell_taken_iff Snake_init_def)
  have i: "Game_init 800 600 0 demo_env = Some (Inr (demo_game \<lparr>pos_x = 3, pos_y = 3\<rparr>))"
    unfolding Game_init_def Let_def lookup_layout_BASIC
    by (simp add: f) (simp add: demo_env_def demo_game_def)
  show ?thesis
    unfolding start_game_def i lookup_layout_MAZE by simp
qed

theorem layout_within_grid_witness:
  "start_game 800 600 ''EASY'' ''MAZE'' False 0 0 demo_env =
     Some (Inr ((demo_game \<lparr>pos_x = 3, pos_y = 3\<rparr>)
                  \<lparr>difficulty := ''EASY'', map_style := ''MAZE'', walls := MAZE,
                   spawn_enemies := False, enemy_count := 0\<rparr>)) \<and>
   list_all (\<lambda>c. 0 \<le> fst c \<and> fst c < 40 \<and> 0 \<le> snd c \<and> snd c < 30) MAZE"
proof -
  let ?g = "(demo_game \<lparr>pos_x = 3, pos_y = 3\<rparr>)
                  \<lparr>difficulty := ''EASY'', map_style := ''MAZE'', walls := MAZE,
                   spawn_enemies := False, enemy_count := 0\<rparr>"
  note s = default_maze_game_started
  have big: "36 \<le> grid_width ?g \<and> 26 \<le> grid_height ?g" by (simp add: demo_game_def)
  from layout_within_grid [OF s] big
  have "\<forall>c\<in>set (walls ?g). 0 \<le> fst c \<and> fst c < grid_width ?g \<and>
                            0 \<le> snd c \<and> snd c < grid_height ?g"
    by blast
  moreover have "walls ?g = MAZE" "grid_width ?g = 40" "grid_height ?g = 30"
    by (simp_all add: demo_game_def)
  ultimately have "list_all (\<lambda>c. 0 \<le> fst c \<and> fst c < 40 \<and> 0 \<le> snd c \<and> snd c < 30) MAZE"
    by (simp add: list_all_iff)
  with s show ?thesis by blast
qed

end
